theory Spec2Isabelle
  imports Main
begin

section \<open>Strings\<close>

text \<open>
  The JavaScript string operations the services use, on \<open>string\<close> (a list of
  characters): \<open>split('/')\<close>, \<open>startsWith\<close>, \<open>includes\<close>.
\<close>

fun split_on :: "char \<Rightarrow> string \<Rightarrow> string list" where
  "split_on sep [] = [[]]"
| "split_on sep (c # cs) =
     (if c = sep then [] # split_on sep cs
      else (case split_on sep cs of
              [] \<Rightarrow> [[c]]
            | seg # segs \<Rightarrow> (c # seg) # segs))"

definition startsWith :: "string \<Rightarrow> string \<Rightarrow> bool" where
  "startsWith s p = (take (length p) s = p)"

fun str_includes :: "string \<Rightarrow> string \<Rightarrow> bool" where
  "str_includes [] p = (p = [])"
| "str_includes (c # cs) p = (startsWith (c # cs) p \<or> str_includes cs p)"

definition fileName :: "string \<Rightarrow> string" where
  \<comment> \<open>\<open>path.split('/').pop() || ''\<close>: the last segment (the split is never empty).\<close>
  "fileName p = last (split_on (CHR ''/'') p)"

section \<open>Codebase scanner (scanner.service.ts)\<close>

datatype node_type = File | Dir

record FileTreeNode =
  path :: string
  ntype :: node_type
  extension :: "string option"

type_synonym language_counts = "(string \<times> nat) list"

record ScanResults =
  totalFiles :: nat
  totalDirectories :: nat
  languages :: language_counts
  dependencies :: "string list"
  frameworks :: "string list"
  complexityScore :: nat
  fileTree :: "FileTreeNode list"

definition languageMap :: "(string \<times> string) list" where
  "languageMap =
    [(''js'', ''JavaScript''), (''jsx'', ''JavaScript''), (''ts'', ''TypeScript''),
     (''tsx'', ''TypeScript''), (''py'', ''Python''), (''java'', ''Java''),
     (''cpp'', ''C++''), (''c'', ''C''), (''cs'', ''C#''), (''go'', ''Go''),
     (''rs'', ''Rust''), (''rb'', ''Ruby''), (''php'', ''PHP''), (''swift'', ''Swift''),
     (''kt'', ''Kotlin''), (''scala'', ''Scala''), (''html'', ''HTML''), (''css'', ''CSS''),
     (''scss'', ''SCSS''), (''sass'', ''SASS''), (''vue'', ''Vue''), (''svelte'', ''Svelte''),
     (''dart'', ''Dart''), (''r'', ''R''), (''sql'', ''SQL''), (''sh'', ''Shell''),
     (''yaml'', ''YAML''), (''yml'', ''YAML''), (''json'', ''JSON''), (''xml'', ''XML''),
     (''md'', ''Markdown'')]"

text \<open>
  The \<open>languages\<close> record is an object with string keys: an association list in
  insertion order whose keys are distinct, so that \<open>Object.keys(languages).length\<close> is
  its length. \<open>bump_language\<close> is \<open>languages[language] = (languages[language] || 0) + 1\<close>.
  \<open>languageMap\<close> is an object literal, so \<open>languageMap[ext]\<close> also finds the properties
  every object inherits: an extension such as \<open>constructor\<close> yields a function, which
  is truthy and is counted under the text of that function. The \<open>size\<close> of a node is
  never read and is left out.
\<close>

definition inheritedProperties :: "(string \<times> string) list" where
  \<comment> \<open>the properties of \<open>Object.prototype\<close>, each with the text its value has as a key\<close>
  "inheritedProperties =
    [(''constructor'', ''function Object() { [native code] }''),
     (''__defineGetter__'', ''function __defineGetter__() { [native code] }''),
     (''__defineSetter__'', ''function __defineSetter__() { [native code] }''),
     (''hasOwnProperty'', ''function hasOwnProperty() { [native code] }''),
     (''__lookupGetter__'', ''function __lookupGetter__() { [native code] }''),
     (''__lookupSetter__'', ''function __lookupSetter__() { [native code] }''),
     (''isPrototypeOf'', ''function isPrototypeOf() { [native code] }''),
     (''propertyIsEnumerable'', ''function propertyIsEnumerable() { [native code] }''),
     (''toString'', ''function toString() { [native code] }''),
     (''valueOf'', ''function valueOf() { [native code] }''),
     (''__proto__'', ''[object Object]''),
     (''toLocaleString'', ''function toLocaleString() { [native code] }'')]"

definition languageMap_lookup :: "string \<Rightarrow> string option" where
  \<comment> \<open>\<open>languageMap[ext]\<close>, as the key it is counted under\<close>
  "languageMap_lookup ext =
     (case map_of languageMap ext of
        Some language \<Rightarrow> Some language
      | None \<Rightarrow> map_of inheritedProperties ext)"

fun bump_language :: "language_counts \<Rightarrow> string \<Rightarrow> language_counts" where
  "bump_language [] l = [(l, 1)]"
| "bump_language ((k, n) # kvs) l =
     (if k = l then (k, n + 1) # kvs else (k, n) # bump_language kvs l)"

fun detectLanguages_loop :: "language_counts \<Rightarrow> FileTreeNode list \<Rightarrow> language_counts" where
  "detectLanguages_loop acc [] = acc"
| "detectLanguages_loop acc (f # fs) =
     detectLanguages_loop
       (case extension f of
          None \<Rightarrow> acc
        | Some ext \<Rightarrow>
            (if ext = [] then acc
             else (case languageMap_lookup ext of
                     None \<Rightarrow> acc
                   | Some language \<Rightarrow> bump_language acc language)))
       fs"

definition detectLanguages :: "FileTreeNode list \<Rightarrow> language_counts" where
  "detectLanguages files = detectLanguages_loop [] files"

definition dependencyFiles :: "string list" where
  "dependencyFiles =
    [''package.json'', ''requirements.txt'', ''Gemfile'', ''go.mod'', ''Cargo.toml'',
     ''pom.xml'', ''build.gradle'', ''composer.json'', ''Pipfile'', ''pyproject.toml'']"

definition extractDependencies :: "FileTreeNode list \<Rightarrow> string list" where
  "extractDependencies files =
     filter (\<lambda>n. n \<in> set dependencyFiles) (map (\<lambda>f. fileName (path f)) files)"

definition patterns :: "(string \<times> string) list" where
  "patterns =
    [(''next.config.js'', ''Next.js''), (''next.config.ts'', ''Next.js''),
     (''nuxt.config.js'', ''Nuxt.js''), (''angular.json'', ''Angular''),
     (''vue.config.js'', ''Vue.js''), (''svelte.config.js'', ''Svelte''),
     (''gatsby-config.js'', ''Gatsby''), (''remix.config.js'', ''Remix''),
     (''vite.config.js'', ''Vite''), (''vite.config.ts'', ''Vite''),
     (''webpack.config.js'', ''Webpack''), (''rollup.config.js'', ''Rollup''),
     (''tsconfig.json'', ''TypeScript''), (''Dockerfile'', ''Docker''),
     (''docker-compose.yml'', ''Docker Compose''), (''.eslintrc'', ''ESLint''),
     (''.prettierrc'', ''Prettier''), (''jest.config.js'', ''Jest''),
     (''vitest.config.ts'', ''Vitest''), (''cypress.json'', ''Cypress''),
     (''playwright.config.ts'', ''Playwright''), (''tailwind.config.js'', ''Tailwind CSS''),
     (''prisma/schema.prisma'', ''Prisma''), (''manage.py'', ''Django''),
     (''app.py'', ''Flask''), (''main.go'', ''Go''), (''Cargo.toml'', ''Rust''),
     (''pom.xml'', ''Maven''), (''build.gradle'', ''Gradle'')]"

definition frameworkIndicators :: "string list" where
  \<comment> \<open>each indicator after \<open>fw.charAt(0).toUpperCase() + fw.slice(1)\<close>\<close>
  "frameworkIndicators =
    [''React'', ''Vue'', ''Angular'', ''Svelte'', ''Express'', ''Fastify'', ''Nestjs'', ''Koa'']"

definition set_add :: "string list \<Rightarrow> string \<Rightarrow> string list" where
  \<comment> \<open>\<open>Set.add\<close>: insertion order, no duplicate\<close>
  "set_add s x = (if x \<in> set s then s else s @ [x])"

definition detectFrameworks :: "FileTreeNode list \<Rightarrow> string list" where
  "detectFrameworks files =
     (let found =
            fold (\<lambda>f acc.
                    fold (\<lambda>(pattern, framework) acc'.
                            if str_includes (path f) pattern then set_add acc' framework else acc')
                         patterns acc)
                 files [];
          packageJson = find (\<lambda>f. path f = ''package.json'') files
      in (case packageJson of
            None \<Rightarrow> found
          | Some _ \<Rightarrow> fold (\<lambda>fw acc. set_add acc fw) frameworkIndicators found))"

definition isConfigFile :: "FileTreeNode \<Rightarrow> bool" where
  "isConfigFile f =
     (let name = fileName (path f)
      in startsWith name ''.'' \<or> str_includes name ''config'' \<or> str_includes name ''.json''
         \<or> str_includes name ''.yaml'' \<or> str_includes name ''.yml'')"

text \<open>The five banded contributions of \<open>calculateComplexity\<close>, in the source's order.\<close>

definition fileBand :: "nat \<Rightarrow> nat" where
  "fileBand fileCount =
     (if fileCount < 10 then 5
      else if fileCount < 50 then 10
      else if fileCount < 200 then 15
      else if fileCount < 500 then 20
      else if fileCount < 1000 then 25
      else 30)"

definition dirBand :: "nat \<Rightarrow> nat" where
  "dirBand dirCount =
     (if dirCount < 5 then 5
      else if dirCount < 15 then 10
      else if dirCount < 30 then 15
      else 20)"

definition languageBand :: "nat \<Rightarrow> nat" where
  "languageBand languageCount =
     (if languageCount = 1 then 5
      else if languageCount = 2 then 10
      else if languageCount \<le> 4 then 15
      else 20)"

definition depBand :: "nat \<Rightarrow> nat" where
  "depBand depCount =
     (if depCount = 0 then 0
      else if depCount = 1 then 5
      else if depCount \<le> 3 then 10
      else 15)"

definition configBand :: "nat \<Rightarrow> nat" where
  "configBand configCount =
     (if configCount < 5 then 3
      else if configCount < 10 then 7
      else if configCount < 20 then 11
      else 15)"

definition calculateComplexity ::
  "FileTreeNode list \<Rightarrow> FileTreeNode list \<Rightarrow> language_counts \<Rightarrow> string list \<Rightarrow> nat" where
  "calculateComplexity files directories langs deps =
     (let score = 0;
          score = score + fileBand (length files);
          score = score + dirBand (length directories);
          score = score + languageBand (length langs);
          score = score + depBand (length deps);
          score = score + configBand (length (filter isConfigFile files))
      in min 100 score)"

definition scanCodebase :: "FileTreeNode list \<Rightarrow> ScanResults" where
  "scanCodebase tree =
     (let files = filter (\<lambda>n. ntype n = File) tree;
          directories = filter (\<lambda>n. ntype n = Dir) tree;
          langs = detectLanguages files;
          deps = extractDependencies files;
          fws = detectFrameworks files
      in \<lparr> totalFiles = length files,
           totalDirectories = length directories,
           languages = langs,
           dependencies = deps,
           frameworks = fws,
           complexityScore = calculateComplexity files directories langs deps,
           fileTree = tree \<rparr>)"

section \<open>Thrown values\<close>

text \<open>
  What a \<open>throw\<close> can carry in the services: an \<open>AppError\<close> (status code and
  message), an error of the HTTP client (with the response's status when there was a
  response), any other JavaScript error (\<open>TypeError\<close>, \<open>SyntaxError\<close>, \<open>Error\<close>), or
  \<open>undefined\<close>. A fallible operation returns \<open>thrown + 'a\<close>, \<open>Inl\<close> the thrown value.
\<close>

datatype thrown =
    AppError nat string
  | AxiosError "nat option"
  | JsError string
  | ThrownUndefined

fun instanceofAppError :: "thrown \<Rightarrow> bool" where
  "instanceofAppError (AppError _ _) = True"
| "instanceofAppError _ = False"

section \<open>Insight generator (llm.service.ts)\<close>

record GitHubRepoMetadata =
  owner :: string
  repo :: string
  full_name :: string
  description :: "string option"
  language :: "string option"
  stars :: nat
  forks :: nat
  default_branch :: string

record LLMAnalysis =
  summary :: string
  vibe :: string
  difficulty :: string
  improvements :: "string list"

text \<open>
  One call of \<open>client.chat.completions.create\<close> either throws or resolves with a
  response whose \<open>choices[0]?.message?.content\<close> is a string or missing. The replies
  of the text-generation service are inputs of the model, one per operation.
\<close>

datatype llm_reply = LlmFailure | LlmContent "string option"

record llm_world =
  summary_reply :: llm_reply
  vibe_reply :: llm_reply
  difficulty_reply :: llm_reply
  improvement_reply :: llm_reply

text \<open>
  What the services take from the JavaScript platform and the model does not compute
  is a parameter: \<open>String.prototype.trim\<close> (it strips the Unicode white space, which a
  \<open>string\<close> of the model cannot hold), \<open>JSON.parse\<close>, the conversion of a parsed value
  to a string in a template literal, and the floating-point rounding of an average to
  two decimals.
\<close>

datatype json =
    JNull
  | JBool bool
  | JNum int
  | JStr string
  | JArr "json list"
  | JObj "(string \<times> json) list"

record platform =
  trim :: "string \<Rightarrow> string"
  json_parse :: "string \<Rightarrow> json option"
  to_string :: "json \<Rightarrow> thrown + string"
  round_average :: "int \<Rightarrow> nat \<Rightarrow> int"

definition completionText :: "platform \<Rightarrow> llm_reply \<Rightarrow> thrown + string" where
  \<comment> \<open>the body shared by the text operations: await the reply, \<open>content?.trim()\<close>,
      throw on a missing or empty text\<close>
  "completionText pf reply =
     (case reply of
        LlmFailure \<Rightarrow> Inl (JsError ''request failed'')
      | LlmContent None \<Rightarrow> Inl (JsError ''Empty response from LLM'')
      | LlmContent (Some c) \<Rightarrow>
          (if trim pf c = [] then Inl (JsError ''Empty response from LLM'')
           else Inr (trim pf c)))"

fun show_nat :: "nat \<Rightarrow> string" where
  "show_nat n = (if n < 10 then [''0123456789'' ! n]
                 else show_nat (n div 10) @ [''0123456789'' ! (n mod 10)])"

declare show_nat.simps [simp del]

definition getFallbackSummary :: "GitHubRepoMetadata \<Rightarrow> string" where
  "getFallbackSummary metadata =
     full_name metadata @ '' is a ''
     @ (case language metadata of None \<Rightarrow> ''software'' | Some l \<Rightarrow> (if l = [] then ''software'' else l))
     @ '' project''
     @ (case description metadata of None \<Rightarrow> [] | Some d \<Rightarrow> (if d = [] then [] else '': '' @ d))
     @ ''. The repository has '' @ show_nat (stars metadata) @ '' stars and ''
     @ show_nat (forks metadata) @ '' forks.''"

definition getFallbackVibe :: "ScanResults \<Rightarrow> string" where
  "getFallbackVibe scanResults =
     (if complexityScore scanResults < 30 then ''Learning Project''
      else if complexityScore scanResults < 50 then ''Personal Tool''
      else if complexityScore scanResults < 70 then ''Open Source Library''
      else ''Enterprise'')"

definition getFallbackDifficulty :: "ScanResults \<Rightarrow> string" where
  "getFallbackDifficulty scanResults =
     (if complexityScore scanResults < 25 then ''Beginner''
      else if complexityScore scanResults < 50 then ''Intermediate''
      else if complexityScore scanResults < 75 then ''Advanced''
      else ''Expert'')"

definition getFallbackImprovements :: "string list" where
  "getFallbackImprovements =
    [''[documentation] Add README: Create comprehensive documentation explaining project setup and usage.'',
     ''[testing] Implement tests: Add unit and integration tests to ensure code reliability.'',
     ''[code-quality] Add linting: Set up ESLint or similar tools for consistent code style.'']"

definition getFallbackAnalysis :: "GitHubRepoMetadata \<Rightarrow> ScanResults \<Rightarrow> LLMAnalysis" where
  "getFallbackAnalysis metadata scanResults =
     \<lparr> summary = getFallbackSummary metadata,
       vibe = getFallbackVibe scanResults,
       difficulty = getFallbackDifficulty scanResults,
       improvements = getFallbackImprovements \<rparr>"

definition generateRepoSummary ::
  "platform \<Rightarrow> GitHubRepoMetadata \<Rightarrow> ScanResults \<Rightarrow> llm_reply \<Rightarrow> thrown + string" where
  "generateRepoSummary pf metadata scanResults reply =
     (case completionText pf reply of
        Inr s \<Rightarrow> Inr s
      | Inl error \<Rightarrow> Inr (getFallbackSummary metadata))"

definition classifyVibe ::
  "platform \<Rightarrow> GitHubRepoMetadata \<Rightarrow> ScanResults \<Rightarrow> llm_reply \<Rightarrow> thrown + string" where
  "classifyVibe pf metadata scanResults reply =
     (case completionText pf reply of
        Inr v \<Rightarrow> Inr v
      | Inl error \<Rightarrow> Inr (getFallbackVibe scanResults))"

definition predictDifficulty :: "platform \<Rightarrow> ScanResults \<Rightarrow> llm_reply \<Rightarrow> thrown + string" where
  "predictDifficulty pf scanResults reply =
     (case completionText pf reply of
        Inr d \<Rightarrow> Inr d
      | Inl error \<Rightarrow> Inr (getFallbackDifficulty scanResults))"

text \<open>
  The improvement plan parses the reply with \<open>JSON.parse\<close> and formats every element
  with a template literal. Reading a property and calling \<open>map\<close> are modelled on the
  parsed value: \<open>map\<close> exists on arrays only, a property of \<open>null\<close> throws, a missing
  property is \<open>undefined\<close> (\<open>None\<close>) and prints as \<open>undefined\<close>. Nothing checks the shape
  of an element. The keys of a parsed object are distinct (\<open>JSON.parse\<close> keeps one value
  per key). The prompts are built from the metadata and the scan without a failing
  step, and the reply does not depend on them in the model, so they are left out.
\<close>

fun get_prop :: "json \<Rightarrow> string \<Rightarrow> thrown + json option" where
  "get_prop JNull k = Inl (JsError ''TypeError'')"
| "get_prop (JObj kvs) k = Inr (map_of kvs k)"
| "get_prop _ k = Inr None"

definition interpolate :: "platform \<Rightarrow> json option \<Rightarrow> thrown + string" where
  "interpolate pf v = (case v of None \<Rightarrow> Inr ''undefined'' | Some j \<Rightarrow> to_string pf j)"

definition prop_text :: "platform \<Rightarrow> json \<Rightarrow> string \<Rightarrow> thrown + string" where
  "prop_text pf imp k = (case get_prop imp k of Inl e \<Rightarrow> Inl e | Inr v \<Rightarrow> interpolate pf v)"

definition formatImprovement :: "platform \<Rightarrow> json \<Rightarrow> thrown + string" where
  \<comment> \<open>\<open>`[${imp.category}] ${imp.title}: ${imp.description}`\<close>\<close>
  "formatImprovement pf imp =
     (case prop_text pf imp ''category'' of
        Inl e \<Rightarrow> Inl e
      | Inr c \<Rightarrow>
          (case prop_text pf imp ''title'' of
             Inl e \<Rightarrow> Inl e
           | Inr t \<Rightarrow>
               (case prop_text pf imp ''description'' of
                  Inl e \<Rightarrow> Inl e
                | Inr d \<Rightarrow> Inr (''['' @ c @ ''] '' @ t @ '': '' @ d))))"

fun map_throwing :: "('a \<Rightarrow> thrown + 'b) \<Rightarrow> 'a list \<Rightarrow> thrown + 'b list" where
  "map_throwing f [] = Inr []"
| "map_throwing f (x # xs) =
     (case f x of
        Inl e \<Rightarrow> Inl e
      | Inr y \<Rightarrow> (case map_throwing f xs of Inl e \<Rightarrow> Inl e | Inr ys \<Rightarrow> Inr (y # ys)))"

definition improvementPlan_body :: "platform \<Rightarrow> llm_reply \<Rightarrow> thrown + string list" where
  \<comment> \<open>the \<open>try\<close> block of \<open>generateImprovementPlan\<close>\<close>
  "improvementPlan_body pf reply =
     (case completionText pf reply of
        Inl e \<Rightarrow> Inl e
      | Inr content \<Rightarrow>
          (case json_parse pf content of
             None \<Rightarrow> Inl (JsError ''SyntaxError'')
           | Some (JArr items) \<Rightarrow> map_throwing (formatImprovement pf) items
           | Some _ \<Rightarrow> Inl (JsError ''TypeError'')))"

definition generateImprovementPlan ::
  "platform \<Rightarrow> GitHubRepoMetadata \<Rightarrow> ScanResults \<Rightarrow> llm_reply \<Rightarrow> thrown + string list" where
  "generateImprovementPlan pf metadata scanResults reply =
     (case improvementPlan_body pf reply of
        Inr formatted \<Rightarrow> Inr formatted
      | Inl error \<Rightarrow> Inr getFallbackImprovements)"

definition analyzeRepository_join ::
  "GitHubRepoMetadata \<Rightarrow> ScanResults \<Rightarrow> thrown + string \<Rightarrow> thrown + string \<Rightarrow> thrown + string
     \<Rightarrow> thrown + string list \<Rightarrow> thrown + LLMAnalysis" where
  \<comment> \<open>\<open>try { await Promise.all([...]) } catch { return getFallbackAnalysis }\<close> on the
      outcomes of the four promises: one rejection rejects the join\<close>
  "analyzeRepository_join metadata scanResults s v d i =
     (case (s, v, d, i) of
        (Inr s', Inr v', Inr d', Inr i') \<Rightarrow>
          Inr \<lparr> summary = s', vibe = v', difficulty = d', improvements = i' \<rparr>
      | _ \<Rightarrow> Inr (getFallbackAnalysis metadata scanResults))"

definition llm_analyzeRepository ::
  "platform \<Rightarrow> llm_world \<Rightarrow> GitHubRepoMetadata \<Rightarrow> ScanResults \<Rightarrow> thrown + LLMAnalysis" where
  "llm_analyzeRepository pf w metadata scanResults =
     analyzeRepository_join metadata scanResults
       (generateRepoSummary pf metadata scanResults (summary_reply w))
       (classifyVibe pf metadata scanResults (vibe_reply w))
       (predictDifficulty pf scanResults (difficulty_reply w))
       (generateImprovementPlan pf metadata scanResults (improvement_reply w))"

section \<open>Retry helper (helpers.ts) and provider client (github.service.ts)\<close>

text \<open>
  \<open>retryWithBackoff(fn, maxRetries = 3, initialDelay = 1000)\<close>. The function \<open>fn\<close>
  is called once per attempt; the model gives it the attempt number, so that \<open>fn i\<close>
  is the outcome of the call made in iteration \<open>i\<close>. The result carries the outcome,
  the number of calls made and the delays slept, in order.
\<close>

record 'a retry_result =
  outcome :: "thrown + 'a"
  calls :: nat
  delays :: "nat list"

function retryWithBackoff_loop ::
  "(nat \<Rightarrow> thrown + 'a) \<Rightarrow> nat \<Rightarrow> nat \<Rightarrow> nat \<Rightarrow> thrown \<Rightarrow> nat list \<Rightarrow> 'a retry_result" where
  "retryWithBackoff_loop fn maxRetries initialDelay i lastError slept =
     (if i < maxRetries then
        (case fn i of
           Inr v \<Rightarrow> \<lparr> outcome = Inr v, calls = i + 1, delays = slept \<rparr>
         | Inl error \<Rightarrow>
             retryWithBackoff_loop fn maxRetries initialDelay (i + 1) error
               (if i < maxRetries - 1 then slept @ [initialDelay * 2 ^ i] else slept))
      else \<lparr> outcome = Inl lastError, calls = i, delays = slept \<rparr>)"
  by pat_completeness auto
termination
  by (relation "measure (\<lambda>(fn, maxRetries, initialDelay, i, lastError, slept). maxRetries - i)") auto

declare retryWithBackoff_loop.simps [simp del]

definition retryWithBackoff :: "(nat \<Rightarrow> thrown + 'a) \<Rightarrow> nat \<Rightarrow> nat \<Rightarrow> 'a retry_result" where
  "retryWithBackoff fn maxRetries initialDelay =
     retryWithBackoff_loop fn maxRetries initialDelay 0 ThrownUndefined []"

text \<open>
  A request of the HTTP client ends with a response of success, with a response whose
  status is an error (kept with its \<open>x-ratelimit-remaining\<close> header), or without any
  response. The response interceptor rewrites the failure before the caller sees it.
\<close>

datatype 'a http_outcome =
    HttpOk 'a
  | HttpStatus nat "string option"
  | NoResponse

definition interceptor :: "'a http_outcome \<Rightarrow> thrown + 'a" where
  "interceptor r =
     (case r of
        HttpOk d \<Rightarrow> Inr d
      | HttpStatus status remaining \<Rightarrow>
          (if status = 403 \<and> remaining = Some ''0''
           then Inl (AppError 429 ''GitHub API rate limit exceeded. Please try again later.'')
           else Inl (AxiosError (Some status)))
      | NoResponse \<Rightarrow> Inl (AxiosError None))"

definition responseStatus :: "thrown \<Rightarrow> nat option" where
  \<comment> \<open>\<open>error.response?.status\<close>\<close>
  "responseStatus e = (case e of AxiosError st \<Rightarrow> st | _ \<Rightarrow> None)"

record repo_json =
  j_owner_login :: string
  j_name :: string
  j_full_name :: string
  j_description :: "string option"
  j_language :: "string option"
  j_stargazers_count :: "nat option"
  j_forks_count :: "nat option"
  j_default_branch :: "string option"

record tree_item =
  t_path :: string
  t_type :: string

definition truthy_string :: "string option \<Rightarrow> string option" where
  \<comment> \<open>\<open>s || undefined\<close>\<close>
  "truthy_string s = (case s of None \<Rightarrow> None | Some v \<Rightarrow> (if v = [] then None else Some v))"

definition toMetadata :: "repo_json \<Rightarrow> GitHubRepoMetadata" where
  "toMetadata d =
     \<lparr> owner = j_owner_login d,
       repo = j_name d,
       full_name = j_full_name d,
       description = truthy_string (j_description d),
       language = truthy_string (j_language d),
       stars = (case j_stargazers_count d of None \<Rightarrow> 0 | Some n \<Rightarrow> n),
       forks = (case j_forks_count d of None \<Rightarrow> 0 | Some n \<Rightarrow> n),
       default_branch = (case truthy_string (j_default_branch d) of None \<Rightarrow> ''main'' | Some b \<Rightarrow> b) \<rparr>"

text \<open>
  The provider is an input of the model: how a URL parses (\<open>parseGitHubUrl\<close> is built
  on the platform's \<open>URL\<close> class) and what the \<open>i\<close>-th request for the repository and
  for its tree answers.
\<close>

record github_world =
  parseGitHubUrl :: "string \<Rightarrow> (string \<times> string) option"
  repo_responses :: "nat \<Rightarrow> repo_json http_outcome"
  tree_responses :: "nat \<Rightarrow> tree_item list http_outcome"

definition fetchRepoMetadata :: "github_world \<Rightarrow> string \<Rightarrow> GitHubRepoMetadata retry_result" where
  "fetchRepoMetadata gh githubUrl =
     (case parseGitHubUrl gh githubUrl of
        None \<Rightarrow> \<lparr> outcome = Inl (AppError 400 ''Invalid GitHub URL''), calls = 0, delays = [] \<rparr>
      | Some (owner', repo') \<Rightarrow>
          (let r = retryWithBackoff (\<lambda>i. interceptor (repo_responses gh i)) 3 1000
           in (case outcome r of
                 Inr d \<Rightarrow> \<lparr> outcome = Inr (toMetadata d), calls = calls r, delays = delays r \<rparr>
               | Inl error \<Rightarrow>
                   \<lparr> outcome =
                       (if responseStatus error = Some 404
                        then Inl (AppError 404 ''Repository not found'')
                        else if responseStatus error = Some 403
                        then Inl (AppError 403 ''Repository is private or access denied'')
                        else Inl (AppError 500 ''Failed to fetch repository metadata'')),
                     calls = calls r, delays = delays r \<rparr>)))"

definition toLowerCase :: "string \<Rightarrow> string" where
  "toLowerCase s =
     map (\<lambda>c. if 65 \<le> (of_char c :: nat) \<and> (of_char c :: nat) \<le> 90
              then char_of ((of_char c :: nat) + 32) else c) s"

definition getFileExtension :: "string \<Rightarrow> string option" where
  "getFileExtension p =
     (let parts = split_on (CHR ''.'') p
      in if length parts > 1 then Some (toLowerCase (last parts)) else None)"

definition toNode :: "tree_item \<Rightarrow> FileTreeNode" where
  "toNode item =
     \<lparr> path = t_path item,
       ntype = (if t_type item = ''tree'' then Dir else File),
       extension = (if t_type item = ''blob'' then getFileExtension (t_path item) else None) \<rparr>"

definition fetchRepoTree :: "github_world \<Rightarrow> (FileTreeNode list) retry_result" where
  "fetchRepoTree gh =
     (let r = retryWithBackoff (\<lambda>i. interceptor (tree_responses gh i)) 3 1000
      in (case outcome r of
            Inr tree \<Rightarrow> \<lparr> outcome = Inr (map toNode tree), calls = calls r, delays = delays r \<rparr>
          | Inl error \<Rightarrow>
              \<lparr> outcome =
                  (if responseStatus error = Some 409 then Inr []
                   else Inl (AppError 500 ''Failed to fetch repository file tree'')),
                calls = calls r, delays = delays r \<rparr>))"

definition cloneRepoStructure ::
  "github_world \<Rightarrow> string \<Rightarrow> (GitHubRepoMetadata \<times> FileTreeNode list) retry_result" where
  "cloneRepoStructure gh githubUrl =
     (let m = fetchRepoMetadata gh githubUrl
      in (case outcome m of
            Inl e \<Rightarrow> \<lparr> outcome = Inl e, calls = calls m, delays = delays m \<rparr>
          | Inr metadata \<Rightarrow>
              (let t = fetchRepoTree gh
               in (case outcome t of
                     Inl e \<Rightarrow>
                       \<lparr> outcome = Inl e, calls = calls m + calls t, delays = delays m @ delays t \<rparr>
                   | Inr tree \<Rightarrow>
                       \<lparr> outcome = Inr (metadata, tree), calls = calls m + calls t,
                         delays = delays m @ delays t \<rparr>))))"

section \<open>Cache (cache.service.ts)\<close>

text \<open>
  Times are \<open>Date.now()\<close>, milliseconds since the epoch. \<open>get\<close> evicts an expired entry
  lazily, so it returns the cache too.
\<close>

record 'v cache_entry =
  c_value :: 'v
  expiresAt :: int

type_synonym 'v cache = "string \<rightharpoonup> 'v cache_entry"

definition cache_get :: "int \<Rightarrow> string \<Rightarrow> 'v cache \<Rightarrow> 'v option \<times> 'v cache" where
  "cache_get now key c =
     (case c key of
        None \<Rightarrow> (None, c)
      | Some entry \<Rightarrow>
          (if now > expiresAt entry then (None, c(key := None))
           else (Some (c_value entry), c)))"

definition cache_set :: "int \<Rightarrow> string \<Rightarrow> 'v \<Rightarrow> int \<Rightarrow> 'v cache \<Rightarrow> 'v cache" where
  "cache_set now key v ttl c = c(key \<mapsto> \<lparr> c_value = v, expiresAt = now + ttl * 1000 \<rparr>)"

definition cache_delete :: "string \<Rightarrow> 'v cache \<Rightarrow> 'v cache" where
  "cache_delete key c = c(key := None)"

section \<open>The \<open>repositories\<close> table (001_initial_schema.sql)\<close>

text \<open>
  A row of \<open>repositories\<close>, without its timestamps. The primary key is generated by the
  database; the model draws it from a counter. The table declares
  \<open>github_url TEXT NOT NULL UNIQUE\<close>: an insert whose URL is already stored, by whichever
  user, is refused with a unique violation (SQLSTATE 23505).
\<close>

record repo_metadata =
  m_owner :: string
  m_full_name :: string
  m_default_branch :: string
  total_files :: nat
  total_directories :: nat
  m_languages :: language_counts
  m_frameworks :: "string list"
  m_dependencies :: "string list"
  m_improvements :: "string list"

record Repository =
  r_id :: nat
  r_user_id :: string
  github_url :: string
  name :: string
  r_description :: "string option"
  r_language :: "string option"
  r_stars :: nat
  r_forks :: nat
  complexity_score :: nat
  difficulty_level :: string
  vibe_classification :: string
  r_summary :: string
  tags :: "string list"
  metadata :: repo_metadata

datatype db_error = UniqueViolation | ForeignKeyViolation | NumericOverflow

record repo_state =
  repositories :: "Repository list"
  next_repo_id :: nat
  cache :: "Repository cache"

definition single :: "'a list \<Rightarrow> 'a option" where
  \<comment> \<open>\<open>.single()\<close>: the row when the query returns exactly one, an error (no data) otherwise\<close>
  "single rows = (case rows of [r] \<Rightarrow> Some r | _ \<Rightarrow> None)"

definition select_repository :: "repo_state \<Rightarrow> string \<Rightarrow> string \<Rightarrow> Repository option" where
  \<comment> \<open>\<open>.select('*').eq('user_id', userId).eq('github_url', githubUrl).single()\<close>\<close>
  "select_repository st userId githubUrl =
     single (filter (\<lambda>r. r_user_id r = userId \<and> github_url r = githubUrl) (repositories st))"

definition insert_repository :: "repo_state \<Rightarrow> Repository \<Rightarrow> db_error + (Repository \<times> repo_state)" where
  \<comment> \<open>\<open>.insert(row).select().single()\<close>; the \<open>r_id\<close> of the argument is ignored\<close>
  "insert_repository st row =
     (if github_url row \<in> set (map github_url (repositories st)) then Inl UniqueViolation
      else (let r = row\<lparr> r_id := next_repo_id st \<rparr>
            in Inr (r, st\<lparr> repositories := repositories st @ [r],
                           next_repo_id := next_repo_id st + 1 \<rparr>)))"

section \<open>Analysis orchestrator (repo.service.ts)\<close>

text \<open>
  What one request meets outside the process: the platform, the provider, the
  text-generation service, and the clock at the cache read and at the cache write.
\<close>

record request_env =
  env_platform :: platform
  env_github :: github_world
  env_llm :: llm_world
  t_read :: int
  t_write :: int

text \<open>
  The result of \<open>analyzeRepository\<close> with the state it leaves and the number of calls it
  made to the provider client (HTTP requests), the scanner and the insight generator.
\<close>

record analysis_result =
  result :: "thrown + Repository"
  state :: repo_state
  github_calls :: nat
  scanner_calls :: nat
  llm_calls :: nat

definition rewrap :: "thrown \<Rightarrow> thrown" where
  \<comment> \<open>the outer \<open>catch\<close>: an \<open>AppError\<close> is thrown on, anything else becomes a 500\<close>
  "rewrap error =
     (if instanceofAppError error then error else AppError 500 ''Repository analysis failed'')"

definition newRepository ::
  "string \<Rightarrow> string \<Rightarrow> GitHubRepoMetadata \<Rightarrow> ScanResults \<Rightarrow> LLMAnalysis \<Rightarrow> Repository" where
  "newRepository userId githubUrl md scanResults llmAnalysis =
     \<lparr> r_id = 0,
       r_user_id = userId,
       github_url = githubUrl,
       name = repo md,
       r_description = description md,
       r_language = language md,
       r_stars = stars md,
       r_forks = forks md,
       complexity_score = complexityScore scanResults,
       difficulty_level = difficulty llmAnalysis,
       vibe_classification = vibe llmAnalysis,
       r_summary = summary llmAnalysis,
       tags = [],
       metadata =
         \<lparr> m_owner = owner md,
           m_full_name = full_name md,
           m_default_branch = default_branch md,
           total_files = totalFiles scanResults,
           total_directories = totalDirectories scanResults,
           m_languages = languages scanResults,
           m_frameworks = frameworks scanResults,
           m_dependencies = dependencies scanResults,
           m_improvements = improvements llmAnalysis \<rparr> \<rparr>"

definition analyzeFresh :: "request_env \<Rightarrow> repo_state \<Rightarrow> string \<Rightarrow> string \<Rightarrow> analysis_result" where
  \<comment> \<open>the pipeline after both lookups missed: fetch, scan, generate, persist, cache\<close>
  "analyzeFresh env st1 userId githubUrl =
     (let g = cloneRepoStructure (env_github env) githubUrl
      in case outcome g of
           Inl e \<Rightarrow>
             \<lparr> result = Inl (rewrap e), state = st1,
               github_calls = calls g, scanner_calls = 0, llm_calls = 0 \<rparr>
         | Inr (md, tree) \<Rightarrow>
             (let scanResults = scanCodebase tree
              in case llm_analyzeRepository (env_platform env) (env_llm env) md scanResults of
                   Inl e \<Rightarrow>
                     \<lparr> result = Inl (rewrap e), state = st1,
                       github_calls = calls g, scanner_calls = 1, llm_calls = 1 \<rparr>
                 | Inr llmAnalysis \<Rightarrow>
                     (case insert_repository st1
                             (newRepository userId githubUrl md scanResults llmAnalysis) of
                        Inl error \<Rightarrow>
                          \<lparr> result = Inl (AppError 500 ''Failed to save repository analysis''),
                            state = st1,
                            github_calls = calls g, scanner_calls = 1, llm_calls = 1 \<rparr>
                      | Inr (r, st2) \<Rightarrow>
                          \<lparr> result = Inr r,
                            state = st2\<lparr> cache :=
                              cache_set (t_write env) (''repo:'' @ githubUrl) r 86400 (cache st2) \<rparr>,
                            github_calls = calls g, scanner_calls = 1, llm_calls = 1 \<rparr>)))"

definition analyzeRepository :: "request_env \<Rightarrow> repo_state \<Rightarrow> string \<Rightarrow> string \<Rightarrow> analysis_result" where
  "analyzeRepository env st userId githubUrl =
     (let cacheKey = ''repo:'' @ githubUrl;
          (cached, c1) = cache_get (t_read env) cacheKey (cache st);
          st1 = st\<lparr> cache := c1 \<rparr>;
          hit = (case cached of None \<Rightarrow> None
                 | Some r \<Rightarrow> (if r_user_id r = userId then Some r else None))
      in case hit of
           Some r \<Rightarrow>
             \<lparr> result = Inr r, state = st1,
               github_calls = 0, scanner_calls = 0, llm_calls = 0 \<rparr>
         | None \<Rightarrow>
             (case select_repository st1 userId githubUrl of
                Some existing \<Rightarrow>
                  \<lparr> result = Inr existing,
                    state = st1\<lparr> cache := cache_set (t_write env) cacheKey existing 86400 c1 \<rparr>,
                    github_calls = 0, scanner_calls = 0, llm_calls = 0 \<rparr>
              | None \<Rightarrow> analyzeFresh env st1 userId githubUrl))"

section \<open>The \<open>daily_logs\<close> and \<open>activity_days\<close> tables\<close>

text \<open>
  A \<open>DATE\<close> is the number of its day, counted from 1970-01-01; the text
  \<open>YYYY-MM-DD\<close> the API exchanges is its name. Hours are \<open>DECIMAL(4, 2)\<close> and
  \<open>DECIMAL(6, 2)\<close>: fixed-point numbers, held as their number of hundredths. The
  service adds them as floating-point numbers and the database rounds the sum to two
  decimals again; the model adds the hundredths exactly. A value that does not fit its
  column is refused with a numeric overflow (SQLSTATE 22003): \<open>DECIMAL(4, 2)\<close> holds
  less than 100 hours, \<open>DECIMAL(6, 2)\<close> less than 10000 hours, \<open>INTEGER\<close> less than
  \<open>2 ^ 31\<close>. Timestamps are left out. A statement of the database either takes effect
  or is refused by a constraint, and a select returns every row that matches; failures
  of the connection and a row limit of the API are not modelled.

  \<open>daily_logs\<close> declares \<open>UNIQUE(user_id, repo_id, log_date)\<close> and \<open>repo_id\<close> is
  nullable. In SQL two rows conflict under a unique constraint only when all the
  constrained columns are equal and none of them is null: a null \<open>repo_id\<close> is distinct
  from every value, another null included. \<open>repo_id\<close> references \<open>repositories(id)\<close>.
  \<open>activity_days\<close> declares \<open>UNIQUE(user_id, activity_date)\<close> on columns that are
  never null.
\<close>

record DailyLog =
  l_id :: nat
  user_id :: string
  repo_id :: "nat option"
  log_date :: int
  content :: string
  hours_worked :: int
  mood :: "string option"

record ActivityDay =
  a_user_id :: string
  activity_date :: int
  log_count :: nat
  total_hours :: int
  is_active :: bool

record log_state =
  daily_logs :: "DailyLog list"
  next_log_id :: nat
  activity_days :: "ActivityDay list"
  repository_ids :: "nat list"

definition fits_hours_worked :: "int \<Rightarrow> bool" where
  \<comment> \<open>\<open>hours_worked DECIMAL(4, 2)\<close>\<close>
  "fits_hours_worked h = (\<bar>h\<bar> < 10000)"

definition fits_activity :: "ActivityDay \<Rightarrow> bool" where
  \<comment> \<open>\<open>log_count INTEGER\<close>, \<open>total_hours DECIMAL(6, 2)\<close>\<close>
  "fits_activity a = (log_count a < 2147483648 \<and> \<bar>total_hours a\<bar> < 1000000)"

definition unique_conflict :: "DailyLog \<Rightarrow> DailyLog \<Rightarrow> bool" where
  "unique_conflict new old =
     (user_id old = user_id new \<and> log_date old = log_date new
      \<and> repo_id new \<noteq> None \<and> repo_id old = repo_id new)"

definition insert_daily_log :: "log_state \<Rightarrow> DailyLog \<Rightarrow> db_error + (DailyLog \<times> log_state)" where
  \<comment> \<open>\<open>.insert(row).select().single()\<close>; the \<open>id\<close> of the argument is ignored\<close>
  "insert_daily_log st row =
     (if (case repo_id row of None \<Rightarrow> False | Some r \<Rightarrow> r \<notin> set (repository_ids st))
      then Inl ForeignKeyViolation
      else if \<not> fits_hours_worked (hours_worked row) then Inl NumericOverflow
      else if list_ex (unique_conflict row) (daily_logs st) then Inl UniqueViolation
      else (let l = row\<lparr> l_id := next_log_id st \<rparr>
            in Inr (l, st\<lparr> daily_logs := daily_logs st @ [l],
                           next_log_id := next_log_id st + 1 \<rparr>)))"

fun upsert_activity :: "ActivityDay \<Rightarrow> ActivityDay list \<Rightarrow> ActivityDay list" where
  \<comment> \<open>\<open>.upsert(row, { onConflict: 'user_id,activity_date' })\<close>\<close>
  "upsert_activity row [] = [row]"
| "upsert_activity row (a # as) =
     (if a_user_id a = a_user_id row \<and> activity_date a = activity_date row
      then row # as
      else a # upsert_activity row as)"

section \<open>Daily log manager (log.service.ts)\<close>

definition logs_for :: "DailyLog list \<Rightarrow> string \<Rightarrow> int \<Rightarrow> DailyLog list" where
  \<comment> \<open>\<open>.from('daily_logs').eq('user_id', userId).eq('log_date', date)\<close>\<close>
  "logs_for logs userId date = filter (\<lambda>l. user_id l = userId \<and> log_date l = date) logs"

definition recompute :: "DailyLog list \<Rightarrow> string \<Rightarrow> int \<Rightarrow> ActivityDay" where
  \<comment> \<open>the row \<open>updateActivityForDate\<close> computes from the day's logs\<close>
  "recompute logs userId date =
     (let day = logs_for logs userId date;
          logCount = length day;
          totalHours = fold (\<lambda>l sum. sum + hours_worked l) day 0;
          isActive = (logCount > 0)
      in \<lparr> a_user_id = userId, activity_date = date, log_count = logCount,
           total_hours = totalHours, is_active = isActive \<rparr>)"

definition updateActivityForDate :: "log_state \<Rightarrow> string \<Rightarrow> int \<Rightarrow> log_state" where
  \<comment> \<open>a refused upsert is logged and nothing else: the stored row stays as it was\<close>
  "updateActivityForDate st userId date =
     (let row = recompute (daily_logs st) userId date
      in if fits_activity row
         then st\<lparr> activity_days := upsert_activity row (activity_days st) \<rparr>
         else st)"

record createLog_data =
  repoId :: "nat option"
  logDate :: int
  d_content :: string
  hoursWorked :: "int option"
  d_mood :: "string option"

definition createLog :: "log_state \<Rightarrow> string \<Rightarrow> createLog_data \<Rightarrow> (thrown + DailyLog) \<times> log_state" where
  "createLog st userId data =
     (case insert_daily_log st
             \<lparr> l_id = 0,
               user_id = userId,
               repo_id = repoId data,
               log_date = logDate data,
               content = d_content data,
               hours_worked = (case hoursWorked data of None \<Rightarrow> 0 | Some h \<Rightarrow> h),
               mood = truthy_string (d_mood data) \<rparr> of
        Inl UniqueViolation \<Rightarrow>
          (Inl (AppError 409 ''Log entry already exists for this date and repository''), st)
      | Inl ForeignKeyViolation \<Rightarrow> (Inl (AppError 500 ''Failed to create log entry''), st)
      | Inl NumericOverflow \<Rightarrow> (Inl (AppError 500 ''Failed to create log entry''), st)
      | Inr (log, st1) \<Rightarrow> (Inr log, updateActivityForDate st1 userId (logDate data)))"

record updateLog_data =
  u_content :: "string option"
  u_hoursWorked :: "int option"
  u_mood :: "string option"

definition apply_updates :: "updateLog_data \<Rightarrow> DailyLog \<Rightarrow> DailyLog" where
  "apply_updates updates l =
     l\<lparr> content := (case u_content updates of None \<Rightarrow> content l | Some c \<Rightarrow> c),
        hours_worked := (case u_hoursWorked updates of None \<Rightarrow> hours_worked l | Some h \<Rightarrow> h),
        mood := (case u_mood updates of None \<Rightarrow> mood l | Some m \<Rightarrow> Some m) \<rparr>"

definition no_columns :: "updateLog_data \<Rightarrow> bool" where
  "no_columns updates = (u_content updates = None \<and> u_hoursWorked updates = None \<and> u_mood updates = None)"

definition hours_overflow :: "updateLog_data \<Rightarrow> bool" where
  "hours_overflow updates =
     (case u_hoursWorked updates of None \<Rightarrow> False | Some h \<Rightarrow> \<not> fits_hours_worked h)"

definition updateLog ::
  "log_state \<Rightarrow> nat \<Rightarrow> string \<Rightarrow> updateLog_data \<Rightarrow> (thrown + DailyLog) \<times> log_state" where
  \<comment> \<open>\<open>.update(updateData).eq('id', logId).eq('user_id', userId).select().single()\<close>; an
      update that names no column touches and returns no row, and so does one that is
      refused for hours that do not fit the column: both end in the 404\<close>
  "updateLog st logId userId updates =
     (let hit = (\<lambda>l. l_id l = logId \<and> user_id l = userId
                     \<and> \<not> no_columns updates \<and> \<not> hours_overflow updates);
          st1 = st\<lparr> daily_logs := map (\<lambda>l. if hit l then apply_updates updates l else l) (daily_logs st) \<rparr>
      in case single (map (apply_updates updates) (filter hit (daily_logs st))) of
           None \<Rightarrow> (Inl (AppError 404 ''Log entry not found or update failed''), st1)
         | Some data \<Rightarrow> (Inr data, updateActivityForDate st1 userId (log_date data)))"

definition deleteLog :: "log_state \<Rightarrow> nat \<Rightarrow> string \<Rightarrow> log_state" where
  "deleteLog st logId userId =
     (let log = single (filter (\<lambda>l. l_id l = logId \<and> user_id l = userId) (daily_logs st));
          st1 = st\<lparr> daily_logs := filter (\<lambda>l. \<not> (l_id l = logId \<and> user_id l = userId)) (daily_logs st) \<rparr>
      in case log of
           None \<Rightarrow> st1
         | Some l \<Rightarrow> updateActivityForDate st1 userId (log_date l))"

text \<open>A sequence of mutations, run one after the other on the store.\<close>

datatype log_op =
    Create string createLog_data
  | Update nat string updateLog_data
  | Delete nat string

fun run_op :: "log_state \<Rightarrow> log_op \<Rightarrow> log_state" where
  "run_op st (Create userId data) = snd (createLog st userId data)"
| "run_op st (Update logId userId updates) = snd (updateLog st logId userId updates)"
| "run_op st (Delete logId userId) = deleteLog st logId userId"

definition run_ops :: "log_state \<Rightarrow> log_op list \<Rightarrow> log_state" where
  "run_ops st ops = foldl run_op st ops"

definition find_activity :: "ActivityDay list \<Rightarrow> string \<Rightarrow> int \<Rightarrow> ActivityDay option" where
  "find_activity rows userId date =
     find (\<lambda>a. a_user_id a = userId \<and> activity_date a = date) rows"

definition empty_logs :: "nat list \<Rightarrow> log_state" where
  "empty_logs repos = \<lparr> daily_logs = [], next_log_id = 0, activity_days = [], repository_ids = repos \<rparr>"

section \<open>Dates (helpers.ts)\<close>

text \<open>
  A JavaScript \<open>Date\<close> is a time in milliseconds since the epoch, read through the
  local time zone of the server: \<open>tz\<close> is the zone's offset from UTC in milliseconds
  (local = UTC + \<open>tz\<close>), taken as fixed. \<open>formatDate\<close> reads the local year, month and
  day only, so where a \<open>Date\<close> is only formatted it is held as the number of its local
  day. The civil calendar is the proleptic Gregorian one.
\<close>

definition msPerDay :: int where
  "msPerDay = 1000 * 60 * 60 * 24"

definition localDay :: "int \<Rightarrow> int \<Rightarrow> int" where
  "localDay tz t = (t + tz) div msPerDay"

definition daysFromCivil :: "int \<Rightarrow> int \<Rightarrow> int \<Rightarrow> int" where
  \<comment> \<open>the day number of year \<open>y\<close>, month \<open>m\<close> (1 to 12), day \<open>d\<close>\<close>
  "daysFromCivil y m d =
     (let y' = (if m \<le> 2 then y - 1 else y);
          era = y' div 400;
          yoe = y' - era * 400;
          doy = (153 * (if m > 2 then m - 3 else m + 9) + 2) div 5 + d - 1;
          doe = yoe * 365 + yoe div 4 - yoe div 100 + doy
      in era * 146097 + doe - 719468)"

definition civilFromDays :: "int \<Rightarrow> int \<times> int \<times> int" where
  \<comment> \<open>year, month (1 to 12) and day of a day number\<close>
  "civilFromDays z =
     (let z' = z + 719468;
          era = z' div 146097;
          doe = z' - era * 146097;
          yoe = (doe - doe div 1460 + doe div 36524 - doe div 146096) div 365;
          doy = doe - (365 * yoe + yoe div 4 - yoe div 100);
          mp = (5 * doy + 2) div 153;
          d = doy - (153 * mp + 2) div 5 + 1;
          m = (if mp < 10 then mp + 3 else mp - 9);
          y = yoe + era * 400
      in (if m \<le> 2 then y + 1 else y, m, d))"

definition getFullYear :: "int \<Rightarrow> int" where
  "getFullYear day = fst (civilFromDays day)"

definition getMonth :: "int \<Rightarrow> int" where
  \<comment> \<open>0 to 11\<close>
  "getMonth day = fst (snd (civilFromDays day)) - 1"

definition getDate :: "int \<Rightarrow> int" where
  "getDate day = snd (snd (civilFromDays day))"

definition makeDay :: "int \<Rightarrow> int \<Rightarrow> int \<Rightarrow> int" where
  \<comment> \<open>the day number of day \<open>dt\<close> of month \<open>m\<close> (0-based, any integer) of year \<open>y\<close>: the
      first of that month, plus \<open>dt - 1\<close>\<close>
  "makeDay y m dt = daysFromCivil (y + m div 12) (m mod 12 + 1) 1 + dt - 1"

definition setDate :: "int \<Rightarrow> int \<Rightarrow> int" where
  \<comment> \<open>\<open>setDate(dt)\<close> keeps year and month: the first of the day's own month, plus \<open>dt - 1\<close>\<close>
  "setDate day dt = (day - (getDate day - 1)) + dt - 1"

definition setMonth :: "int \<Rightarrow> int \<Rightarrow> int" where
  "setMonth day m = makeDay (getFullYear day) m (getDate day)"

definition setFullYear :: "int \<Rightarrow> int \<Rightarrow> int" where
  "setFullYear day y = makeDay y (getMonth day) (getDate day)"

datatype period = Week | Month | Year | All

definition getDateRange :: "int \<Rightarrow> int \<Rightarrow> period \<Rightarrow> int \<times> int" where
  \<comment> \<open>\<open>(startDate, endDate)\<close> at the time \<open>now\<close>\<close>
  "getDateRange tz now p =
     (let today = localDay tz now;
          endDate = today;
          startDate =
            (case p of
               Week \<Rightarrow> setDate today (getDate today - 7)
             | Month \<Rightarrow> setMonth today (getMonth today - 1)
             | Year \<Rightarrow> setFullYear today (getFullYear today - 1)
             | All \<Rightarrow> daysFromCivil 2000 1 1)
      in (startDate, endDate))"

section \<open>Activity aggregator (activity.service.ts)\<close>

record metrics =
  totalHours :: int
  totalLogs :: nat
  activeDays :: nat
  uniqueRepos :: nat
  averageHoursPerDay :: int
  m_period :: period
  startDate :: int
  endDate :: int

definition activities_between :: "ActivityDay list \<Rightarrow> string \<Rightarrow> int \<Rightarrow> int \<Rightarrow> ActivityDay list" where
  \<comment> \<open>\<open>.eq('user_id', userId).gte('activity_date', startDate).lte('activity_date', endDate)\<close>\<close>
  "activities_between rows userId s e =
     filter (\<lambda>a. a_user_id a = userId \<and> s \<le> activity_date a \<and> activity_date a \<le> e) rows"

definition logs_between :: "DailyLog list \<Rightarrow> string \<Rightarrow> int \<Rightarrow> int \<Rightarrow> DailyLog list" where
  "logs_between rows userId s e =
     filter (\<lambda>l. user_id l = userId \<and> s \<le> log_date l \<and> log_date l \<le> e) rows"

definition getProductivityMetrics ::
  "platform \<Rightarrow> int \<Rightarrow> int \<Rightarrow> log_state \<Rightarrow> string \<Rightarrow> period \<Rightarrow> metrics" where
  \<comment> \<open>hours in hundredths. \<open>Math.round(totalHours * 100) / 100\<close> gives a sum of hundredths
      back; \<open>Math.round((totalHours / activeDays) * 100) / 100\<close> rounds a floating-point
      quotient and is the platform's \<open>round_average\<close>\<close>
  "getProductivityMetrics pf tz now st userId p =
     (let (s, e) = getDateRange tz now p;
          activities = activities_between (activity_days st) userId s e;
          logs = logs_between (daily_logs st) userId s e;
          total = fold (\<lambda>day sum. sum + total_hours day) activities 0;
          nlogs = fold (\<lambda>day sum. sum + log_count day) activities 0;
          active = length (filter is_active activities);
          uniqueRepoIds = remdups (List.map_filter repo_id logs)
      in \<lparr> totalHours = total,
           totalLogs = nlogs,
           activeDays = active,
           uniqueRepos = length uniqueRepoIds,
           averageHoursPerDay =
             (if active > 0 then round_average pf total active else 0),
           m_period = p,
           startDate = s,
           endDate = e \<rparr>)"

record streak =
  currentStreak :: nat
  longestStreak :: nat
  lastActiveDate :: "int option"

definition newDate :: "int \<Rightarrow> int" where
  \<comment> \<open>\<open>new Date('YYYY-MM-DD')\<close>: a date-only text is read as midnight UTC\<close>
  "newDate date = date * msPerDay"

definition setHours0 :: "int \<Rightarrow> int \<Rightarrow> int" where
  \<comment> \<open>\<open>setHours(0, 0, 0, 0)\<close>: midnight of the same local day\<close>
  "setHours0 tz t = localDay tz t * msPerDay - tz"

definition active_days_desc :: "ActivityDay list \<Rightarrow> string \<Rightarrow> int list" where
  \<comment> \<open>\<open>.eq('user_id', userId).eq('is_active', true).order('activity_date', desc)\<close>\<close>
  "active_days_desc rows userId =
     rev (sort (map activity_date (filter (\<lambda>a. a_user_id a = userId \<and> is_active a) rows)))"

fun currentStreak_loop :: "int \<Rightarrow> int \<Rightarrow> nat \<Rightarrow> nat \<Rightarrow> int list \<Rightarrow> nat" where
  \<comment> \<open>\<open>today\<close> is the time of local midnight; \<open>expectedDate\<close> is \<open>i\<close> local days earlier\<close>
  "currentStreak_loop tz today i current [] = current"
| "currentStreak_loop tz today i current (a # as) =
     (let activityDate = setHours0 tz (newDate a);
          expectedDate = today - int i * msPerDay
      in if activityDate = expectedDate
         then currentStreak_loop tz today (i + 1) (current + 1) as
         else current)"

fun longestStreak_loop :: "nat \<Rightarrow> nat \<Rightarrow> int list \<Rightarrow> nat" where
  "longestStreak_loop longest temp (a # b # rest) =
     (let dayDiff = (newDate a - newDate b) div msPerDay
      in if dayDiff = 1 then longestStreak_loop longest (temp + 1) (b # rest)
         else longestStreak_loop (max longest temp) 1 (b # rest))"
| "longestStreak_loop longest temp _ = max longest temp"

definition calculateStreak :: "int \<Rightarrow> int \<Rightarrow> log_state \<Rightarrow> string \<Rightarrow> streak" where
  "calculateStreak tz now st userId =
     (let activities = active_days_desc (activity_days st) userId
      in case activities of
           [] \<Rightarrow> \<lparr> currentStreak = 0, longestStreak = 0, lastActiveDate = None \<rparr>
         | first # _ \<Rightarrow>
             \<lparr> currentStreak = currentStreak_loop tz (setHours0 tz now) 0 0 activities,
               longestStreak = longestStreak_loop 0 1 activities,
               lastActiveDate = Some first \<rparr>)"

section \<open>Invariants of the stores\<close>

text \<open>
  The repository store as the schema and the service keep it: the URLs of the rows are
  distinct (\<open>github_url\<close> is unique), and a cache entry holds a stored row under the key
  of that row's URL.
\<close>

definition repo_inv :: "repo_state \<Rightarrow> bool" where
  "repo_inv st =
     (distinct (map github_url (repositories st))
      \<and> (\<forall>k e. cache st k = Some e \<longrightarrow>
             c_value e \<in> set (repositories st) \<and> k = ''repo:'' @ github_url (c_value e)))"

text \<open>
  The log store as the service keeps it: log ids are distinct and below the counter,
  no (user, date) has two aggregate rows, and for every (user, date) whose recomputation
  over the current logs fits the columns of \<open>activity_days\<close>, the aggregate row, if
  there is one, is that recomputation, and there is one if the day has a log. Nothing
  is said of a day whose recomputation does not fit: its upsert is refused.
\<close>

definition akey :: "ActivityDay \<Rightarrow> string \<times> int" where
  "akey a = (a_user_id a, activity_date a)"

definition log_inv :: "log_state \<Rightarrow> bool" where
  "log_inv st =
     (distinct (map l_id (daily_logs st))
      \<and> (\<forall>l \<in> set (daily_logs st). l_id l < next_log_id st)
      \<and> distinct (map akey (activity_days st))
      \<and> (\<forall>a \<in> set (activity_days st).
            fits_activity (recompute (daily_logs st) (a_user_id a) (activity_date a)) \<longrightarrow>
            a = recompute (daily_logs st) (a_user_id a) (activity_date a))
      \<and> (\<forall>l \<in> set (daily_logs st).
            fits_activity (recompute (daily_logs st) (user_id l) (log_date l)) \<longrightarrow>
            (\<exists>a \<in> set (activity_days st).
               a_user_id a = user_id l \<and> activity_date a = log_date l)))"

section \<open>Sample inputs\<close>

text \<open>Concrete inputs on which the theorems below are instantiated.\<close>

text \<open>
  Two platforms for the samples. On the texts the samples use there is nothing to trim;
  \<open>pf0\<close> parses no text, \<open>pf1\<close> parses \<open>[{}]\<close>, as an array of one object without
  properties; strings, \<open>null\<close> and booleans are converted as JavaScript converts them
  (numbers and arrays do not occur in the samples).
\<close>

definition pf0 :: platform where
  "pf0 = \<lparr> trim = (\<lambda>s. s), json_parse = (\<lambda>s. None),
           to_string = (\<lambda>j. case j of
                               JStr s \<Rightarrow> Inr s
                             | JNull \<Rightarrow> Inr ''null''
                             | JBool b \<Rightarrow> Inr (if b then ''true'' else ''false'')
                             | _ \<Rightarrow> Inr ''[object Object]''),
           round_average = (\<lambda>total n. (2 * total + int n) div (2 * int n)) \<rparr>"

definition pf1 :: platform where
  "pf1 = pf0\<lparr> json_parse :=
                 (\<lambda>s. if s = ''[{}]'' then Some (JArr [JObj []]) else None) \<rparr>"

definition md0 :: GitHubRepoMetadata where
  "md0 = \<lparr> owner = ''o'', repo = ''r'', full_name = ''o/r'', description = None,
           language = Some ''Go'', stars = 12, forks = 3, default_branch = ''main'' \<rparr>"

definition url0 :: string where
  "url0 = ''https://github.com/o/r''"

definition gh_status :: "nat \<Rightarrow> string option \<Rightarrow> github_world" where
  "gh_status st remaining =
     \<lparr> parseGitHubUrl = (\<lambda>u. Some (''o'', ''r'')),
       repo_responses = (\<lambda>i. HttpStatus st remaining),
       tree_responses = (\<lambda>i. HttpOk []) \<rparr>"

definition repo_json0 :: repo_json where
  "repo_json0 =
     \<lparr> j_owner_login = ''o'', j_name = ''r'', j_full_name = ''o/r'', j_description = None,
       j_language = Some ''Go'', j_stargazers_count = Some 12, j_forks_count = Some 3,
       j_default_branch = Some ''main'' \<rparr>"

definition gh_ok :: github_world where
  "gh_ok =
     \<lparr> parseGitHubUrl = (\<lambda>u. Some (''o'', ''r'')),
       repo_responses = (\<lambda>i. HttpOk repo_json0),
       tree_responses = (\<lambda>i. HttpOk []) \<rparr>"

definition gh_tree_status :: "nat \<Rightarrow> string option \<Rightarrow> github_world" where
  "gh_tree_status st remaining = gh_ok\<lparr> tree_responses := (\<lambda>i. HttpStatus st remaining) \<rparr>"

definition llm_down :: llm_world where
  "llm_down =
     \<lparr> summary_reply = LlmFailure, vibe_reply = LlmFailure, difficulty_reply = LlmFailure,
       improvement_reply = LlmFailure \<rparr>"

definition llm_shapeless :: llm_world where
  "llm_shapeless = llm_down\<lparr> improvement_reply := LlmContent (Some ''[{}]'') \<rparr>"

definition env0 :: request_env where
  "env0 = \<lparr> env_platform = pf0, env_github = gh_ok, env_llm = llm_down,
            t_read = 1000, t_write = 2000 \<rparr>"

definition no_repositories :: repo_state where
  "no_repositories = \<lparr> repositories = [], next_repo_id = 0, cache = Map.empty \<rparr>"

definition alice_repo :: Repository where
  "alice_repo =
     \<lparr> r_id = 0, r_user_id = ''alice'', github_url = url0, name = ''r'',
       r_description = None, r_language = Some ''Go'', r_stars = 12, r_forks = 3,
       complexity_score = 28, difficulty_level = ''Intermediate'',
       vibe_classification = ''Learning Project'',
       r_summary = ''o/r is a Go project. The repository has 12 stars and 3 forks.'',
       tags = [],
       metadata =
         \<lparr> m_owner = ''o'', m_full_name = ''o/r'', m_default_branch = ''main'',
           total_files = 0, total_directories = 0, m_languages = [], m_frameworks = [],
           m_dependencies = [], m_improvements = getFallbackImprovements \<rparr> \<rparr>"

definition alice_state :: repo_state where
  "alice_state =
     \<lparr> repositories = [alice_repo], next_repo_id = 1,
       cache = [''repo:'' @ url0 \<mapsto> \<lparr> c_value = alice_repo, expiresAt = 86402000 \<rparr>] \<rparr>"

definition data0 :: createLog_data where
  "data0 = \<lparr> repoId = None, logDate = 100, d_content = ''a'', hoursWorked = Some 150,
             d_mood = None \<rparr>"

definition data24 :: createLog_data where
  "data24 = \<lparr> repoId = None, logDate = 100, d_content = ''a'', hoursWorked = Some 2400,
              d_mood = None \<rparr>"

definition log24 :: "nat \<Rightarrow> DailyLog" where
  "log24 i = \<lparr> l_id = i, user_id = ''u'', repo_id = None, log_date = 100, content = ''a'',
              hours_worked = 2400, mood = None \<rparr>"

definition row24 :: "nat \<Rightarrow> ActivityDay" where
  "row24 k = \<lparr> a_user_id = ''u'', activity_date = 100, log_count = k,
              total_hours = 2400 * int k, is_active = True \<rparr>"

definition day24 :: "nat \<Rightarrow> log_state" where
  "day24 n = \<lparr> daily_logs = map log24 [0..<n], next_log_id = n,
              activity_days = (if n = 0 then [] else [row24 (min n 416)]),
              repository_ids = [] \<rparr>"

definition ops0 :: "log_op list" where
  "ops0 = [Create ''u'' data0,
           Create ''u'' (data0\<lparr> repoId := Some 7, hoursWorked := Some 200 \<rparr>),
           Update 0 ''u'' \<lparr> u_content = None, u_hoursWorked = Some 325, u_mood = None \<rparr>,
           Delete 1 ''u'']"

definition day_row :: "int \<Rightarrow> ActivityDay" where
  "day_row d = \<lparr> a_user_id = ''u'', activity_date = d, log_count = 1, total_hours = 100,
               is_active = True \<rparr>"

definition days_state :: "int list \<Rightarrow> log_state" where
  "days_state ds = \<lparr> daily_logs = [], next_log_id = 0, activity_days = map day_row ds,
                    repository_ids = [] \<rparr>"

section \<open>Properties of the scanner\<close>

lemma fileBand_range: "5 \<le> fileBand n \<and> fileBand n \<le> 30"
  by (simp add: fileBand_def)

lemma dirBand_range: "5 \<le> dirBand n \<and> dirBand n \<le> 20"
  by (simp add: dirBand_def)

lemma languageBand_range: "5 \<le> languageBand n \<and> languageBand n \<le> 20"
  by (simp add: languageBand_def)

lemma depBand_range: "depBand n \<le> 15"
  by (simp add: depBand_def)

lemma configBand_range: "3 \<le> configBand n \<and> configBand n \<le> 15"
  by (simp add: configBand_def)

lemma calculateComplexity_sum:
  "calculateComplexity files dirs langs deps =
     min 100 (fileBand (length files) + dirBand (length dirs) + languageBand (length langs)
              + depBand (length deps) + configBand (length (filter isConfigFile files)))"
  by (simp add: calculateComplexity_def Let_def)

lemma calculateComplexity_range:
  "18 \<le> calculateComplexity files dirs langs deps \<and> calculateComplexity files dirs langs deps \<le> 100"
proof -
  have "5 \<le> fileBand (length files)" "5 \<le> dirBand (length dirs)"
       "5 \<le> languageBand (length langs)" "3 \<le> configBand (length (filter isConfigFile files))"
    using fileBand_range dirBand_range languageBand_range configBand_range by blast+
  then show ?thesis
    unfolding calculateComplexity_sum by simp
qed

lemma calculateComplexity_empty: "calculateComplexity [] [] [] [] = 28"
  by (simp add: calculateComplexity_def fileBand_def dirBand_def languageBand_def
      depBand_def configBand_def)

lemma detectLanguages_empty: "detectLanguages [] = []"
  by (simp add: detectLanguages_def)

lemma extractDependencies_empty: "extractDependencies [] = []"
  by (simp add: extractDependencies_def)

lemma detectFrameworks_empty: "detectFrameworks [] = []"
  by (simp add: detectFrameworks_def)

lemma scanCodebase_empty:
  "scanCodebase [] = \<lparr> totalFiles = 0, totalDirectories = 0, languages = [],
     dependencies = [], frameworks = [], complexityScore = 28, fileTree = [] \<rparr>"
  by (simp add: scanCodebase_def calculateComplexity_empty detectLanguages_empty
      extractDependencies_empty detectFrameworks_empty)

text \<open>
  C2. Scanning an empty file tree (no file, no directory, no language, no manifest, no
  config-like file) is claimed to score exactly 18 = 5 + 5 + 5 + 0 + 3. The code scores
  it 28: the language band tests \<open>languageCount === 1\<close>, then \<open>=== 2\<close>, then \<open><= 4\<close>, so
  a count of zero falls into the third tier and contributes 15, more than one or two
  languages do. The other four bands contribute 5, 5, 0 and 3 as claimed.
\<close>

theorem empty_tree_scores_28:
  "complexityScore (scanCodebase []) = 28
   \<and> totalFiles (scanCodebase []) = 0 \<and> totalDirectories (scanCodebase []) = 0
   \<and> languages (scanCodebase []) = [] \<and> dependencies (scanCodebase []) = []
   \<and> fileBand 0 = 5 \<and> dirBand 0 = 5 \<and> languageBand 0 = 15 \<and> depBand 0 = 0 \<and> configBand 0 = 3
   \<and> complexityScore (scanCodebase []) \<noteq> 18"
  by (simp add: scanCodebase_empty fileBand_def dirBand_def languageBand_def depBand_def
      configBand_def)

text \<open>
  C10. For every file tree, the empty one included, the complexity score lies between
  18 and 100. Each band has a positive minimum except the dependency band: the minimums
  are 5, 5, 5, 0 and 3 and sum to 18; the maximums are 30, 20, 20, 15 and 15 and sum to
  100. Every minimum and every maximum is reached by some count. The bound also holds
  for \<open>calculateComplexity\<close> on arguments that no scan produces.
\<close>

theorem complexity_score_bounds:
  "18 \<le> complexityScore (scanCodebase tree) \<and> complexityScore (scanCodebase tree) \<le> 100
   \<and> 18 \<le> calculateComplexity files dirs langs deps
   \<and> calculateComplexity files dirs langs deps \<le> 100
   \<and> (5 \<le> fileBand a \<and> fileBand a \<le> 30) \<and> fileBand 0 = 5 \<and> fileBand 1000 = 30
   \<and> (5 \<le> dirBand b \<and> dirBand b \<le> 20) \<and> dirBand 0 = 5 \<and> dirBand 30 = 20
   \<and> (5 \<le> languageBand c \<and> languageBand c \<le> 20) \<and> languageBand 1 = 5 \<and> languageBand 5 = 20
   \<and> (0 \<le> depBand d \<and> depBand d \<le> 15) \<and> depBand 0 = 0 \<and> depBand 4 = 15
   \<and> (3 \<le> configBand e \<and> configBand e \<le> 15) \<and> configBand 0 = 3 \<and> configBand 20 = 15
   \<and> (5 + 5 + 5 + 0 + 3 = (18::nat)) \<and> (30 + 20 + 20 + 15 + 15 = (100::nat))"
proof -
  have "18 \<le> complexityScore (scanCodebase tree) \<and> complexityScore (scanCodebase tree) \<le> 100"
    using calculateComplexity_range by (simp add: scanCodebase_def Let_def)
  moreover have "fileBand 0 = 5" "fileBand 1000 = 30" "dirBand 0 = 5" "dirBand 30 = 20"
    "languageBand 1 = 5" "languageBand 5 = 20" "depBand 0 = 0" "depBand 4 = 15"
    "configBand 0 = 3" "configBand 20 = 15"
    by (simp_all add: fileBand_def dirBand_def languageBand_def depBand_def configBand_def)
  ultimately show ?thesis
    using calculateComplexity_range fileBand_range dirBand_range languageBand_range
      depBand_range configBand_range by simp
qed

section \<open>Properties of the insight generator\<close>

lemma completionText_fails_iff:
  "isl (completionText pf r) \<longleftrightarrow>
     r = LlmFailure \<or> r = LlmContent None \<or> (\<exists>c. r = LlmContent (Some c) \<and> trim pf c = [])"
  by (simp add: completionText_def split: llm_reply.split option.split)

lemma completionText_text:
  "trim pf c \<noteq> [] \<Longrightarrow> completionText pf (LlmContent (Some c)) = Inr (trim pf c)"
  by (simp add: completionText_def)

lemma generateRepoSummary_value:
  "generateRepoSummary pf md sr r =
     Inr (case completionText pf r of Inr s \<Rightarrow> s | Inl e \<Rightarrow> getFallbackSummary md)"
  by (simp add: generateRepoSummary_def split: sum.split)

lemma classifyVibe_value:
  "classifyVibe pf md sr r =
     Inr (case completionText pf r of Inr v \<Rightarrow> v | Inl e \<Rightarrow> getFallbackVibe sr)"
  by (simp add: classifyVibe_def split: sum.split)

lemma predictDifficulty_value:
  "predictDifficulty pf sr r =
     Inr (case completionText pf r of Inr d \<Rightarrow> d | Inl e \<Rightarrow> getFallbackDifficulty sr)"
  by (simp add: predictDifficulty_def split: sum.split)

lemma generateImprovementPlan_value:
  "generateImprovementPlan pf md sr r =
     Inr (case improvementPlan_body pf r of Inr f \<Rightarrow> f | Inl e \<Rightarrow> getFallbackImprovements)"
  by (simp add: generateImprovementPlan_def split: sum.split)

lemma join_fulfilled:
  "analyzeRepository_join md sr (Inr s) (Inr v) (Inr d) (Inr i) =
     Inr \<lparr> summary = s, vibe = v, difficulty = d, improvements = i \<rparr>"
  by (simp add: analyzeRepository_join_def)

lemma join_rejected:
  "isl s \<or> isl v \<or> isl d \<or> isl i \<Longrightarrow>
   analyzeRepository_join md sr s v d i = Inr (getFallbackAnalysis md sr)"
  by (auto simp add: analyzeRepository_join_def isl_def split: sum.split)

lemma llm_analyzeRepository_value:
  "llm_analyzeRepository pf w md sr =
     Inr \<lparr> summary = (case completionText pf (summary_reply w) of
                        Inr s \<Rightarrow> s | Inl e \<Rightarrow> getFallbackSummary md),
           vibe = (case completionText pf (vibe_reply w) of
                     Inr v \<Rightarrow> v | Inl e \<Rightarrow> getFallbackVibe sr),
           difficulty = (case completionText pf (difficulty_reply w) of
                           Inr d \<Rightarrow> d | Inl e \<Rightarrow> getFallbackDifficulty sr),
           improvements = (case improvementPlan_body pf (improvement_reply w) of
                             Inr f \<Rightarrow> f | Inl e \<Rightarrow> getFallbackImprovements) \<rparr>"
  unfolding llm_analyzeRepository_def generateRepoSummary_value classifyVibe_value
    predictDifficulty_value generateImprovementPlan_value join_fulfilled
  by (rule refl)

lemma llm_all_fail:
  assumes "isl (completionText pf (summary_reply w))"
    and "isl (completionText pf (vibe_reply w))"
    and "isl (completionText pf (difficulty_reply w))"
    and "isl (improvementPlan_body pf (improvement_reply w))"
  shows "llm_analyzeRepository pf w md sr = Inr (getFallbackAnalysis md sr)"
  using assms unfolding llm_analyzeRepository_value getFallbackAnalysis_def
  by (auto simp add: isl_def)

lemma prop_text_fails_iff:
  "isl (prop_text pf x k) \<longleftrightarrow>
     x = JNull \<or> (\<exists>v. get_prop x k = Inr (Some v) \<and> isl (to_string pf v))"
  by (cases x) (auto simp add: prop_text_def interpolate_def split: option.split)

lemma formatImprovement_fails_iff:
  "isl (formatImprovement pf x) \<longleftrightarrow>
     isl (prop_text pf x ''category'') \<or> isl (prop_text pf x ''title'')
     \<or> isl (prop_text pf x ''description'')"
  by (auto simp add: formatImprovement_def isl_def split: sum.split)

lemma formatImprovement_fails:
  "isl (formatImprovement pf x) \<longleftrightarrow>
     x = JNull
     \<or> (\<exists>k \<in> {''category'', ''title'', ''description''}.
           \<exists>v. get_prop x k = Inr (Some v) \<and> isl (to_string pf v))"
  unfolding formatImprovement_fails_iff prop_text_fails_iff by blast

lemma formatImprovement_line:
  assumes "prop_text pf x ''category'' = Inr c"
    and "prop_text pf x ''title'' = Inr t"
    and "prop_text pf x ''description'' = Inr d"
  shows "formatImprovement pf x = Inr (''['' @ c @ ''] '' @ t @ '': '' @ d)"
  using assms by (simp add: formatImprovement_def)

lemma prop_text_missing: "get_prop x k = Inr None \<Longrightarrow> prop_text pf x k = Inr ''undefined''"
  by (simp add: prop_text_def interpolate_def)

lemma formatImprovement_undefined:
  assumes "get_prop x ''category'' = Inr None"
    and "get_prop x ''title'' = Inr None"
    and "get_prop x ''description'' = Inr None"
  shows "formatImprovement pf x = Inr ''[undefined] undefined: undefined''"
  using assms by (simp add: formatImprovement_line [OF prop_text_missing prop_text_missing prop_text_missing])

lemma map_throwing_fails_iff: "isl (map_throwing f xs) \<longleftrightarrow> (\<exists>x \<in> set xs. isl (f x))"
  by (induction xs) (auto simp add: isl_def split: sum.split)

lemma map_throwing_map: "\<forall>x \<in> set xs. f x = Inr (g x) \<Longrightarrow> map_throwing f xs = Inr (map g xs)"
  by (induction xs) simp_all

lemma improvementPlan_body_array:
  "trim pf c \<noteq> [] \<Longrightarrow> json_parse pf (trim pf c) = Some (JArr items) \<Longrightarrow>
     improvementPlan_body pf (LlmContent (Some c)) = map_throwing (formatImprovement pf) items"
  by (simp add: improvementPlan_body_def completionText_def)

lemma improvementPlan_body_fails_iff:
  "isl (improvementPlan_body pf r) \<longleftrightarrow>
     isl (completionText pf r)
     \<or> (\<exists>c. r = LlmContent (Some c)
            \<and> (case json_parse pf (trim pf c) of
                  Some (JArr items) \<Rightarrow> \<exists>x \<in> set items. isl (formatImprovement pf x)
                | _ \<Rightarrow> True))"
proof (cases "isl (completionText pf r)")
  case True
  then show ?thesis by (auto simp add: improvementPlan_body_def isl_def)
next
  case False
  then obtain c where r: "r = LlmContent (Some c)" and c: "trim pf c \<noteq> []"
    unfolding completionText_fails_iff by (cases r) (auto split: option.splits)
  have "completionText pf r = Inr (trim pf c)"
    using r c by (simp add: completionText_def)
  then show ?thesis
    using False r
    by (simp add: improvementPlan_body_def map_throwing_fails_iff
        split: option.split json.split)
qed

lemma shapeless_plan:
  assumes "trim pf c \<noteq> []" and "json_parse pf (trim pf c) = Some (JArr items)"
    and "\<forall>x \<in> set items. get_prop x ''category'' = Inr None \<and> get_prop x ''title'' = Inr None
                          \<and> get_prop x ''description'' = Inr None"
  shows "generateImprovementPlan pf md sr (LlmContent (Some c)) =
           Inr (map (\<lambda>x. ''[undefined] undefined: undefined'') items)"
proof -
  have "map_throwing (formatImprovement pf) items =
          Inr (map (\<lambda>x. ''[undefined] undefined: undefined'') items)"
    using assms(3) by (intro map_throwing_map) (simp add: formatImprovement_undefined)
  then show ?thesis
    unfolding generateImprovementPlan_value improvementPlan_body_array [OF assms(1,2)]
    by simp
qed

text \<open>
  C9. The claim: the insight-generation step never fails the analysis request; any
  failure of one call (network error, empty output, malformed structured output) is
  absorbed by that operation's fallback, and if the joined call throws the result is
  the four fallbacks at once. Every operation absorbs what its body throws, and nothing
  else checks the reply: structured output whose elements lack the expected fields does
  not throw, so it is formatted and returned.

  As amended. The insight-generation step never fails the analysis request: for every
  reply of the service \<open>llm_analyzeRepository\<close> returns the analysis whose four fields
  are, each on its own, the value the service gave (the trimmed text, the formatted
  list) when that call succeeded and that operation's deterministic fallback when it
  failed; the same holds of each operation called alone. The failures absorbed are
  exactly these. For the three text operations: the request failed, or the text is
  missing or empty after trimming. For the improvement plan: one of those, or the text
  does not parse, or it parses to something that is not an array, or the array has an
  element whose formatting throws, which is a \<open>null\<close> element or an element with a
  \<open>category\<close>, \<open>title\<close> or \<open>description\<close> whose conversion to a string throws. An
  array whose elements lack the three fields (objects without them, numbers, strings) is
  not a failure: every element is formatted with \<open>undefined\<close> in the place of each
  missing field, and these lines are returned, not the fallback list. An element with
  the three fields is formatted as \<open>[category] title: description\<close>. If one of the four
  joined promises rejects, the result is the four heuristic fallbacks at once: the
  template summary, the score-banded vibe and difficulty, and the fixed list of three
  improvements.
\<close>

theorem insight_generation_absorbs_failures:
  "llm_analyzeRepository pf w md sr =
     Inr \<lparr> summary = (case completionText pf (summary_reply w) of
                        Inr s \<Rightarrow> s | Inl e \<Rightarrow> getFallbackSummary md),
           vibe = (case completionText pf (vibe_reply w) of
                     Inr v \<Rightarrow> v | Inl e \<Rightarrow> getFallbackVibe sr),
           difficulty = (case completionText pf (difficulty_reply w) of
                           Inr d \<Rightarrow> d | Inl e \<Rightarrow> getFallbackDifficulty sr),
           improvements = (case improvementPlan_body pf (improvement_reply w) of
                             Inr f \<Rightarrow> f | Inl e \<Rightarrow> getFallbackImprovements) \<rparr>
   \<and> generateRepoSummary pf md sr r =
       Inr (case completionText pf r of Inr s \<Rightarrow> s | Inl e \<Rightarrow> getFallbackSummary md)
   \<and> classifyVibe pf md sr r =
       Inr (case completionText pf r of Inr v \<Rightarrow> v | Inl e \<Rightarrow> getFallbackVibe sr)
   \<and> predictDifficulty pf sr r =
       Inr (case completionText pf r of Inr d \<Rightarrow> d | Inl e \<Rightarrow> getFallbackDifficulty sr)
   \<and> generateImprovementPlan pf md sr r =
       Inr (case improvementPlan_body pf r of Inr f \<Rightarrow> f | Inl e \<Rightarrow> getFallbackImprovements)
   \<and> (isl (completionText pf r) \<longleftrightarrow>
         r = LlmFailure \<or> r = LlmContent None
         \<or> (\<exists>c. r = LlmContent (Some c) \<and> trim pf c = []))
   \<and> (trim pf c \<noteq> [] \<longrightarrow> completionText pf (LlmContent (Some c)) = Inr (trim pf c))
   \<and> (isl (improvementPlan_body pf r) \<longleftrightarrow>
         isl (completionText pf r)
         \<or> (\<exists>c. r = LlmContent (Some c)
                \<and> (case json_parse pf (trim pf c) of
                      Some (JArr items) \<Rightarrow> \<exists>x \<in> set items. isl (formatImprovement pf x)
                    | _ \<Rightarrow> True)))
   \<and> (isl (formatImprovement pf x) \<longleftrightarrow>
         x = JNull
         \<or> (\<exists>k \<in> {''category'', ''title'', ''description''}.
               \<exists>v. get_prop x k = Inr (Some v) \<and> isl (to_string pf v)))
   \<and> (trim pf c \<noteq> [] \<and> json_parse pf (trim pf c) = Some (JArr items)
       \<and> (\<forall>x \<in> set items. get_prop x ''category'' = Inr None \<and> get_prop x ''title'' = Inr None
                             \<and> get_prop x ''description'' = Inr None)
       \<longrightarrow> generateImprovementPlan pf md sr (LlmContent (Some c)) =
             Inr (map (\<lambda>x. ''[undefined] undefined: undefined'') items))
   \<and> (prop_text pf x ''category'' = Inr pc \<and> prop_text pf x ''title'' = Inr pt
       \<and> prop_text pf x ''description'' = Inr pd
       \<longrightarrow> formatImprovement pf x = Inr (''['' @ pc @ ''] '' @ pt @ '': '' @ pd))
   \<and> (isl (completionText pf (summary_reply w)) \<and> isl (completionText pf (vibe_reply w))
       \<and> isl (completionText pf (difficulty_reply w))
       \<and> isl (improvementPlan_body pf (improvement_reply w))
       \<longrightarrow> llm_analyzeRepository pf w md sr = Inr (getFallbackAnalysis md sr))
   \<and> (isl js \<or> isl jv \<or> isl jd \<or> isl ji \<longrightarrow>
         analyzeRepository_join md sr js jv jd ji = Inr (getFallbackAnalysis md sr))
   \<and> getFallbackAnalysis md sr =
         \<lparr> summary = getFallbackSummary md, vibe = getFallbackVibe sr,
           difficulty = getFallbackDifficulty sr, improvements = getFallbackImprovements \<rparr>
   \<and> length getFallbackImprovements = 3"
proof -
  have "length getFallbackImprovements = 3"
    by (simp add: getFallbackImprovements_def)
  then show ?thesis
    using llm_analyzeRepository_value [of pf w md sr]
      generateRepoSummary_value [of pf md sr r] classifyVibe_value [of pf md sr r]
      predictDifficulty_value [of pf sr r] generateImprovementPlan_value [of pf md sr r]
      completionText_fails_iff [of pf r] completionText_text [of pf c]
      improvementPlan_body_fails_iff [of pf r] formatImprovement_fails [of pf x]
      shapeless_plan [of pf c items md sr] formatImprovement_line [of pf x pc pt pd]
      llm_all_fail [of pf w md sr] join_rejected [of js jv jd ji md sr]
      getFallbackAnalysis_def [of md sr]
    by blast
qed

theorem insight_generation_absorbs_failures_witness:
  "llm_analyzeRepository pf1 llm_shapeless md0 (scanCodebase []) =
     Inr \<lparr> summary = ''o/r is a Go project. The repository has 12 stars and 3 forks.'',
           vibe = ''Learning Project'', difficulty = ''Intermediate'',
           improvements = [''[undefined] undefined: undefined''] \<rparr>
   \<and> llm_analyzeRepository pf1 llm_down md0 (scanCodebase []) =
       Inr (getFallbackAnalysis md0 (scanCodebase []))
   \<and> generateRepoSummary pf1 md0 (scanCodebase []) LlmFailure
       = Inr ''o/r is a Go project. The repository has 12 stars and 3 forks.''
   \<and> classifyVibe pf1 md0 (scanCodebase []) LlmFailure = Inr ''Learning Project''
   \<and> predictDifficulty pf1 (scanCodebase []) LlmFailure = Inr ''Intermediate''
   \<and> generateImprovementPlan pf1 md0 (scanCodebase []) LlmFailure = Inr getFallbackImprovements
   \<and> isl (formatImprovement pf1 JNull)
   \<and> formatImprovement pf1 (JObj [(''category'', JStr ''a''), (''title'', JStr ''b''),
                                    (''description'', JStr ''c'')]) = Inr ''[a] b: c''
   \<and> analyzeRepository_join md0 (scanCodebase []) (Inl ThrownUndefined) (Inr ''v'') (Inr ''d'') (Inr [])
       = Inr (getFallbackAnalysis md0 (scanCodebase []))"
proof -
  note t = insight_generation_absorbs_failures
    [where pf = pf1 and md = md0 and sr = "scanCodebase []" and r = LlmFailure
       and c = "''[{}]''" and items = "[JObj []]"
       and js = "Inl ThrownUndefined" and jv = "Inr ''v''" and jd = "Inr ''d''" and ji = "Inr []"]
  note a = t [where w = llm_shapeless and x = JNull and pc = "[]" and pt = "[]" and pd = "[]"]
  note b = t [where w = llm_down
      and x = "JObj [(''category'', JStr ''a''), (''title'', JStr ''b''), (''description'', JStr ''c'')]"
      and pc = "''a''" and pt = "''b''" and pd = "''c''"]
  have fail: "isl (completionText pf1 LlmFailure)" "isl (improvementPlan_body pf1 LlmFailure)"
    by (simp_all add: completionText_def improvementPlan_body_def)
  have shapeless: "improvementPlan_body pf1 (LlmContent (Some ''[{}]''))
                   = Inr [''[undefined] undefined: undefined'']"
    by (simp add: improvementPlan_body_def completionText_def pf1_def pf0_def
        formatImprovement_def prop_text_def interpolate_def)
  have fb:
    "getFallbackSummary md0 = ''o/r is a Go project. The repository has 12 stars and 3 forks.''"
    "getFallbackVibe (scanCodebase []) = ''Learning Project''"
    "getFallbackDifficulty (scanCodebase []) = ''Intermediate''"
    by (simp_all add: getFallbackSummary_def getFallbackVibe_def getFallbackDifficulty_def
        md0_def scanCodebase_empty show_nat.simps)
  have props:
    "prop_text pf1 (JObj [(''category'', JStr ''a''), (''title'', JStr ''b''),
                          (''description'', JStr ''c'')]) ''category'' = Inr ''a''"
    "prop_text pf1 (JObj [(''category'', JStr ''a''), (''title'', JStr ''b''),
                          (''description'', JStr ''c'')]) ''title'' = Inr ''b''"
    "prop_text pf1 (JObj [(''category'', JStr ''a''), (''title'', JStr ''b''),
                          (''description'', JStr ''c'')]) ''description'' = Inr ''c''"
    by (simp_all add: prop_text_def interpolate_def pf1_def pf0_def)
  have "llm_analyzeRepository pf1 llm_shapeless md0 (scanCodebase []) =
     Inr \<lparr> summary = ''o/r is a Go project. The repository has 12 stars and 3 forks.'',
           vibe = ''Learning Project'', difficulty = ''Intermediate'',
           improvements = [''[undefined] undefined: undefined''] \<rparr>"
    using a fail shapeless fb by (simp add: llm_shapeless_def llm_down_def completionText_def)
  moreover have "llm_analyzeRepository pf1 llm_down md0 (scanCodebase []) =
       Inr (getFallbackAnalysis md0 (scanCodebase []))"
  proof -
    have "isl (completionText pf1 (summary_reply llm_down))"
      "isl (completionText pf1 (vibe_reply llm_down))"
      "isl (completionText pf1 (difficulty_reply llm_down))"
      "isl (improvementPlan_body pf1 (improvement_reply llm_down))"
      using fail by (simp_all add: llm_down_def)
    then show ?thesis using b by blast
  qed
  moreover have "isl (formatImprovement pf1 JNull)"
    using a by blast
  moreover have "formatImprovement pf1 (JObj [(''category'', JStr ''a''), (''title'', JStr ''b''),
                                    (''description'', JStr ''c'')]) = Inr ''[a] b: c''"
    using b props by simp
  moreover have "generateRepoSummary pf1 md0 (scanCodebase []) LlmFailure
       = Inr ''o/r is a Go project. The repository has 12 stars and 3 forks.''"
    "classifyVibe pf1 md0 (scanCodebase []) LlmFailure = Inr ''Learning Project''"
    "predictDifficulty pf1 (scanCodebase []) LlmFailure = Inr ''Intermediate''"
    "generateImprovementPlan pf1 md0 (scanCodebase []) LlmFailure = Inr getFallbackImprovements"
    using a fail fb by (simp_all add: completionText_def improvementPlan_body_def)
  moreover have "analyzeRepository_join md0 (scanCodebase []) (Inl ThrownUndefined) (Inr ''v'') (Inr ''d'') (Inr [])
       = Inr (getFallbackAnalysis md0 (scanCodebase []))"
    using a by simp
  ultimately show ?thesis by blast
qed

text \<open>
  The service answers the improvement request with the text \<open>[{}]\<close>, an array whose one
  element has none of the three fields: structured output that is malformed, and that
  nothing rejects. The operation returns the line built from three \<open>undefined\<close>, not its
  fallback list, and the analysis carries that line.
\<close>

theorem shapeless_plan_is_not_replaced_by_fallback:
  "generateImprovementPlan pf1 md0 (scanCodebase []) (LlmContent (Some ''[{}]''))
     = Inr [''[undefined] undefined: undefined'']
   \<and> generateImprovementPlan pf1 md0 (scanCodebase []) (LlmContent (Some ''[{}]''))
       \<noteq> Inr getFallbackImprovements
   \<and> (\<exists>a. llm_analyzeRepository pf1 llm_shapeless md0 (scanCodebase []) = Inr a
          \<and> improvements a = [''[undefined] undefined: undefined''])"
  by (simp add: llm_analyzeRepository_value generateImprovementPlan_value
      improvementPlan_body_def completionText_def pf1_def pf0_def llm_shapeless_def llm_down_def
      formatImprovement_def prop_text_def interpolate_def getFallbackImprovements_def)

section \<open>Properties of the retry helper and the provider client\<close>

lemma retry_three_attempts:
  "retryWithBackoff fn 3 1000 =
     (case fn 0 of
        Inr v \<Rightarrow> \<lparr> outcome = Inr v, calls = 1, delays = [] \<rparr>
      | Inl e0 \<Rightarrow>
          (case fn 1 of
             Inr v \<Rightarrow> \<lparr> outcome = Inr v, calls = 2, delays = [1000] \<rparr>
           | Inl e1 \<Rightarrow>
               (case fn 2 of
                  Inr v \<Rightarrow> \<lparr> outcome = Inr v, calls = 3, delays = [1000, 2000] \<rparr>
                | Inl e2 \<Rightarrow> \<lparr> outcome = Inl e2, calls = 3, delays = [1000, 2000] \<rparr>)))"
  unfolding retryWithBackoff_def
  apply (subst retryWithBackoff_loop.simps)
  apply (subst retryWithBackoff_loop.simps)
  apply (subst retryWithBackoff_loop.simps)
  apply (subst retryWithBackoff_loop.simps)
  apply (simp add: numeral_2_eq_2 split: sum.split)
  done






















text \<open>
  A rate-limited answer is retried too, and \<open>fetchRepoMetadata\<close> then reports it as a
  500: the interceptor's \<open>AppError\<close> carries no \<open>response\<close>, so neither status test of
  the \<open>catch\<close> block matches it.
\<close>

lemma rate_limited_is_retried_and_reported_as_500:
  "fetchRepoMetadata (gh_status 403 (Some ''0'')) url0 =
     \<lparr> outcome = Inl (AppError 500 ''Failed to fetch repository metadata''), calls = 3,
       delays = [1000, 2000] \<rparr>"
  by (simp add: fetchRepoMetadata_def retry_three_attempts gh_status_def interceptor_def
      responseStatus_def)

lemma rate_limited_tree_is_retried_and_reported_as_500:
  "fetchRepoTree (gh_tree_status 403 (Some ''0'')) =
     \<lparr> outcome = Inl (AppError 500 ''Failed to fetch repository file tree''), calls = 3,
       delays = [1000, 2000] \<rparr>"
  by (simp add: fetchRepoTree_def retry_three_attempts gh_tree_status_def gh_ok_def
      interceptor_def responseStatus_def)

section \<open>Properties of the analysis orchestrator\<close>

lemma select_repository_cache [simp]:
  "select_repository (st\<lparr> cache := c \<rparr>) u url = select_repository st u url"
  by (simp add: select_repository_def)

lemma single_Some: "single xs = Some x \<longleftrightarrow> xs = [x]"
  by (auto simp add: single_def split: list.splits)

lemma select_repository_sound:
  "select_repository st u url = Some r \<Longrightarrow>
   r \<in> set (repositories st) \<and> r_user_id r = u \<and> github_url r = url"
proof -
  assume "select_repository st u url = Some r"
  then have "filter (\<lambda>r. r_user_id r = u \<and> github_url r = url) (repositories st) = [r]"
    by (simp add: select_repository_def single_Some)
  then have "r \<in> set (filter (\<lambda>r. r_user_id r = u \<and> github_url r = url) (repositories st))"
    by simp
  then show ?thesis by simp
qed

lemma filter_distinct_key:
  assumes "distinct (map f xs)" and "x \<in> set xs" and "P x" and "\<And>y. P y \<Longrightarrow> f y = f x"
  shows "filter P xs = [x]"
  using assms(1,2)
proof (induction xs)
  case Nil
  then show ?case by simp
next
  case (Cons a xs)
  have key: "\<And>y. y \<in> set (a # xs) \<Longrightarrow> P y \<Longrightarrow> y = x"
  proof -
    fix y assume y: "y \<in> set (a # xs)" "P y"
    have "f y = f x" by (rule assms(4) [OF y(2)])
    then show "y = x"
      using Cons.prems y(1) by (meson distinct_map inj_onD)
  qed
  show ?case
  proof (cases "a = x")
    case True
    have "x \<notin> set xs" using Cons.prems(1) True by (auto simp add: image_iff)
    then have "\<forall>y\<in>set xs. \<not> P y" using key by fastforce
    then have "filter P xs = []" by (simp add: filter_empty_conv)
    then show ?thesis using True assms(3) by simp
  next
    case False
    then have x: "x \<in> set xs" using Cons.prems(2) by simp
    have "\<not> P a" using key [of a] False by auto
    moreover have "filter P xs = [x]"
      using Cons.IH Cons.prems(1) x by simp
    ultimately show ?thesis by simp
  qed
qed

lemma select_repository_complete:
  "distinct (map github_url (repositories st)) \<Longrightarrow> r \<in> set (repositories st) \<Longrightarrow>
   r_user_id r = u \<Longrightarrow> github_url r = url \<Longrightarrow> select_repository st u url = Some r"
  unfolding select_repository_def single_Some
  by (rule filter_distinct_key [where f = github_url]) auto

lemma analyze_hit:
  "cache_get (t_read env) (''repo:'' @ url) (cache st) = (Some r, c1) \<Longrightarrow> r_user_id r = u \<Longrightarrow>
   analyzeRepository env st u url =
     \<lparr> result = Inr r, state = st\<lparr> cache := c1 \<rparr>,
       github_calls = 0, scanner_calls = 0, llm_calls = 0 \<rparr>"
  by (simp add: analyzeRepository_def Let_def)

lemma analyze_existing:
  "cache_get (t_read env) (''repo:'' @ url) (cache st) = (cached, c1) \<Longrightarrow>
   (\<forall>r. cached = Some r \<longrightarrow> r_user_id r \<noteq> u) \<Longrightarrow>
   select_repository st u url = Some existing \<Longrightarrow>
   analyzeRepository env st u url =
     \<lparr> result = Inr existing,
       state = st\<lparr> cache := cache_set (t_write env) (''repo:'' @ url) existing 86400 c1 \<rparr>,
       github_calls = 0, scanner_calls = 0, llm_calls = 0 \<rparr>"
  by (cases cached) (simp_all add: analyzeRepository_def Let_def)

lemma analyze_fresh:
  "cache_get (t_read env) (''repo:'' @ url) (cache st) = (cached, c1) \<Longrightarrow>
   (\<forall>r. cached = Some r \<longrightarrow> r_user_id r \<noteq> u) \<Longrightarrow>
   select_repository st u url = None \<Longrightarrow>
   analyzeRepository env st u url = analyzeFresh env (st\<lparr> cache := c1 \<rparr>) u url"
  by (cases cached) (simp_all add: analyzeRepository_def Let_def)


lemma cache_get_cases:
  "cache_get now k c = (cached, c1) \<Longrightarrow>
   (cached = None \<and> (c1 = c \<or> c1 = c(k := None)))
   \<or> (\<exists>e. c k = Some e \<and> cached = Some (c_value e) \<and> c1 = c)"
  by (auto simp add: cache_get_def split: option.splits if_splits)

lemma analyzeFresh_cases:
  "(\<exists>e. result (analyzeFresh env st1 u url) = Inl e \<and> state (analyzeFresh env st1 u url) = st1)
   \<or> (\<exists>r. result (analyzeFresh env st1 u url) = Inr r
          \<and> r_user_id r = u \<and> github_url r = url
          \<and> url \<notin> set (map github_url (repositories st1))
          \<and> state (analyzeFresh env st1 u url) =
              st1\<lparr> repositories := repositories st1 @ [r],
                   next_repo_id := next_repo_id st1 + 1,
                   cache := cache_set (t_write env) (''repo:'' @ url) r 86400 (cache st1) \<rparr>)"
proof (cases "outcome (cloneRepoStructure (env_github env) url)")
  case (Inl e)
  then show ?thesis by (simp add: analyzeFresh_def Let_def)
next
  case (Inr p)
  obtain md tree where p: "p = (md, tree)" by (cases p)
  show ?thesis
  proof (cases "llm_analyzeRepository (env_platform env) (env_llm env) md (scanCodebase tree)")
    case (Inl e)
    then show ?thesis using Inr p by (simp add: analyzeFresh_def Let_def)
  next
    case llm: (Inr a)
    show ?thesis
    proof (cases "url \<in> set (map github_url (repositories st1))")
      case True
      then have "insert_repository st1 (newRepository u url md (scanCodebase tree) a) = Inl UniqueViolation"
        by (simp add: insert_repository_def newRepository_def)
      then show ?thesis using Inr p llm by (simp add: analyzeFresh_def Let_def)
    next
      case False
      then have "insert_repository st1 (newRepository u url md (scanCodebase tree) a) =
         Inr ((newRepository u url md (scanCodebase tree) a)\<lparr> r_id := next_repo_id st1 \<rparr>,
              st1\<lparr> repositories := repositories st1
                       @ [(newRepository u url md (scanCodebase tree) a)\<lparr> r_id := next_repo_id st1 \<rparr>],
                   next_repo_id := next_repo_id st1 + 1 \<rparr>)"
        by (simp add: insert_repository_def newRepository_def Let_def)
      then show ?thesis using Inr p llm False
        by (simp add: analyzeFresh_def Let_def newRepository_def)
    qed
  qed
qed


lemma analyze_cases:
  assumes "cache_get (t_read env) (''repo:'' @ url) (cache st) = (cached, c1)"
  shows "(\<exists>r. cached = Some r \<and> r_user_id r = u
            \<and> analyzeRepository env st u url =
                 \<lparr> result = Inr r, state = st\<lparr> cache := c1 \<rparr>,
                   github_calls = 0, scanner_calls = 0, llm_calls = 0 \<rparr>)
       \<or> ((\<forall>r. cached = Some r \<longrightarrow> r_user_id r \<noteq> u)
           \<and> (\<exists>existing. select_repository st u url = Some existing
                \<and> analyzeRepository env st u url =
                     \<lparr> result = Inr existing,
                       state = st\<lparr> cache := cache_set (t_write env) (''repo:'' @ url) existing 86400 c1 \<rparr>,
                       github_calls = 0, scanner_calls = 0, llm_calls = 0 \<rparr>))
       \<or> ((\<forall>r. cached = Some r \<longrightarrow> r_user_id r \<noteq> u)
           \<and> select_repository st u url = None
           \<and> analyzeRepository env st u url = analyzeFresh env (st\<lparr> cache := c1 \<rparr>) u url)"
proof (cases "\<exists>r. cached = Some r \<and> r_user_id r = u")
  case True
  then show ?thesis using analyze_hit [OF _ _, of env url st _ c1 u] assms by auto
next
  case False
  then have miss: "\<forall>r. cached = Some r \<longrightarrow> r_user_id r \<noteq> u" by simp
  show ?thesis
  proof (cases "select_repository st u url")
    case None
    then show ?thesis using analyze_fresh [OF assms miss] miss by simp
  next
    case (Some existing)
    then show ?thesis using analyze_existing [OF assms miss] miss by simp
  qed
qed

lemma repo_inv_smaller_cache:
  "repo_inv st \<Longrightarrow> (\<And>k e. c k = Some e \<Longrightarrow> cache st k = Some e) \<Longrightarrow> repo_inv (st\<lparr> cache := c \<rparr>)"
  by (simp add: repo_inv_def) blast

lemma repo_inv_after_get:
  "repo_inv st \<Longrightarrow> cache_get now k (cache st) = (cached, c1) \<Longrightarrow> repo_inv (st\<lparr> cache := c1 \<rparr>)"
  by (rule repo_inv_smaller_cache) (auto dest!: cache_get_cases split: if_splits)

lemma repo_inv_cache_set:
  "repo_inv st \<Longrightarrow> r \<in> set (repositories st) \<Longrightarrow> github_url r = url \<Longrightarrow>
   repo_inv (st\<lparr> cache := cache_set t (''repo:'' @ url) r ttl (cache st) \<rparr>)"
  by (auto simp add: repo_inv_def cache_set_def)

lemma repo_inv_insert:
  "repo_inv st \<Longrightarrow> url \<notin> set (map github_url (repositories st)) \<Longrightarrow> github_url r = url \<Longrightarrow>
   repo_inv (st\<lparr> repositories := repositories st @ [r], next_repo_id := n,
                 cache := cache_set t (''repo:'' @ url) r ttl (cache st) \<rparr>)"
  by (auto simp add: repo_inv_def cache_set_def)

lemma analyze_result_persisted:
  assumes inv: "repo_inv st" and ok: "result (analyzeRepository env st u url) = Inr r"
  shows "repo_inv (state (analyzeRepository env st u url))
         \<and> r \<in> set (repositories (state (analyzeRepository env st u url)))
         \<and> r_user_id r = u \<and> github_url r = url"
proof -
  obtain cached c1 where g: "cache_get (t_read env) (''repo:'' @ url) (cache st) = (cached, c1)"
    by (cases "cache_get (t_read env) (''repo:'' @ url) (cache st)")
  have inv1: "repo_inv (st\<lparr> cache := c1 \<rparr>)" by (rule repo_inv_after_get [OF inv g])
  from analyze_cases [OF g, of u]
  consider
    (hit) "cached = Some r" "r_user_id r = u"
          "state (analyzeRepository env st u url) = st\<lparr> cache := c1 \<rparr>"
  | (existing) "select_repository st u url = Some r"
          "state (analyzeRepository env st u url) =
             st\<lparr> cache := cache_set (t_write env) (''repo:'' @ url) r 86400 c1 \<rparr>"
  | (fresh) "analyzeRepository env st u url = analyzeFresh env (st\<lparr> cache := c1 \<rparr>) u url"
    using ok by auto
  then show ?thesis
  proof cases
    case hit
    from cache_get_cases [OF g] hit(1) obtain e where e: "cache st (''repo:'' @ url) = Some e" "c_value e = r"
      by auto
    then have "r \<in> set (repositories st)" "''repo:'' @ url = ''repo:'' @ github_url r"
      using inv by (auto simp add: repo_inv_def)
    then show ?thesis using hit inv1 by simp
  next
    case existing
    have s: "r \<in> set (repositories st)" "r_user_id r = u" "github_url r = url"
      using select_repository_sound [OF existing(1)] by simp_all
    have "repo_inv ((st\<lparr> cache := c1 \<rparr>)\<lparr> cache := cache_set (t_write env) (''repo:'' @ url) r 86400
             (cache (st\<lparr> cache := c1 \<rparr>)) \<rparr>)"
      by (rule repo_inv_cache_set [OF inv1]) (simp_all add: s)
    then show ?thesis using existing s by simp
  next
    case fresh
    from analyzeFresh_cases [of env "st\<lparr> cache := c1 \<rparr>" u url] ok fresh
    have f: "r_user_id r = u" "github_url r = url"
      "url \<notin> set (map github_url (repositories (st\<lparr> cache := c1 \<rparr>)))"
      "state (analyzeFresh env (st\<lparr> cache := c1 \<rparr>) u url) =
          (st\<lparr> cache := c1 \<rparr>)\<lparr> repositories := repositories (st\<lparr> cache := c1 \<rparr>) @ [r],
               next_repo_id := next_repo_id (st\<lparr> cache := c1 \<rparr>) + 1,
               cache := cache_set (t_write env) (''repo:'' @ url) r 86400 (cache (st\<lparr> cache := c1 \<rparr>)) \<rparr>"
      by auto
    have "repo_inv (state (analyzeFresh env (st\<lparr> cache := c1 \<rparr>) u url))"
      unfolding f(4) by (rule repo_inv_insert [OF inv1 f(3) f(2)])
    then show ?thesis using fresh f by simp
  qed
qed

lemma analyze_persisted_record:
  assumes inv: "repo_inv st" and r: "r \<in> set (repositories st)" "r_user_id r = u" "github_url r = url"
  shows "result (analyzeRepository env st u url) = Inr r
         \<and> github_calls (analyzeRepository env st u url) = 0
         \<and> scanner_calls (analyzeRepository env st u url) = 0
         \<and> llm_calls (analyzeRepository env st u url) = 0
         \<and> repositories (state (analyzeRepository env st u url)) = repositories st
         \<and> (fst (cache_get (t_read env) (''repo:'' @ url) (cache st)) = None \<longrightarrow>
              cache (state (analyzeRepository env st u url)) (''repo:'' @ url)
                = Some \<lparr> c_value = r, expiresAt = t_write env + 86400 * 1000 \<rparr>)"
proof -
  obtain cached c1 where g: "cache_get (t_read env) (''repo:'' @ url) (cache st) = (cached, c1)"
    by (cases "cache_get (t_read env) (''repo:'' @ url) (cache st)")
  have sel: "select_repository st u url = Some r"
    using inv r by (simp add: repo_inv_def select_repository_complete)
  from analyze_cases [OF g, of u]
  consider
    (hit) r' where "cached = Some r'" "r_user_id r' = u"
          "analyzeRepository env st u url =
                 \<lparr> result = Inr r', state = st\<lparr> cache := c1 \<rparr>,
                   github_calls = 0, scanner_calls = 0, llm_calls = 0 \<rparr>"
  | (existing) "analyzeRepository env st u url =
                     \<lparr> result = Inr r,
                       state = st\<lparr> cache := cache_set (t_write env) (''repo:'' @ url) r 86400 c1 \<rparr>,
                       github_calls = 0, scanner_calls = 0, llm_calls = 0 \<rparr>"
    using sel by auto
  then show ?thesis
  proof cases
    case hit
    from cache_get_cases [OF g] hit(1) obtain e where e: "cache st (''repo:'' @ url) = Some e" "c_value e = r'"
      by auto
    then have "r' \<in> set (repositories st)" "''repo:'' @ url = ''repo:'' @ github_url r'"
      using inv by (auto simp add: repo_inv_def)
    then have "select_repository st u url = Some r'"
      using inv hit(2) by (simp add: repo_inv_def select_repository_complete)
    then have "r' = r" using sel by simp
    then show ?thesis using hit g by simp
  next
    case existing
    then show ?thesis by (simp add: cache_set_def)
  qed
qed


lemma clone_gh_ok:
  "cloneRepoStructure gh_ok url0 = \<lparr> outcome = Inr (md0, []), calls = 2, delays = [] \<rparr>"
  by (simp add: cloneRepoStructure_def fetchRepoMetadata_def fetchRepoTree_def gh_ok_def
      retry_three_attempts interceptor_def toMetadata_def repo_json0_def md0_def truthy_string_def)

lemma llm_down_analysis:
  "llm_analyzeRepository pf0 llm_down md0 (scanCodebase []) =
     Inr \<lparr> summary = ''o/r is a Go project. The repository has 12 stars and 3 forks.'',
           vibe = ''Learning Project'', difficulty = ''Intermediate'',
           improvements = getFallbackImprovements \<rparr>"
  by (simp add: llm_analyzeRepository_def analyzeRepository_join_def generateRepoSummary_def
      classifyVibe_def predictDifficulty_def generateImprovementPlan_def improvementPlan_body_def
      completionText_def llm_down_def getFallbackSummary_def getFallbackVibe_def
      getFallbackDifficulty_def md0_def scanCodebase_empty show_nat.simps)

lemma alice_analysis:
  "analyzeRepository env0 no_repositories ''alice'' url0 =
     \<lparr> result = Inr alice_repo, state = alice_state,
       github_calls = 2, scanner_calls = 1, llm_calls = 1 \<rparr>"
  apply (simp add: analyzeRepository_def analyzeFresh_def Let_def env0_def no_repositories_def
      cache_get_def select_repository_def single_def clone_gh_ok llm_down_analysis)
  apply (simp add: insert_repository_def newRepository_def alice_repo_def alice_state_def
      cache_set_def md0_def scanCodebase_empty Let_def)
  done

lemma bob_analysis:
  "analyzeRepository env0 alice_state ''bob'' url0 =
     \<lparr> result = Inl (AppError 500 ''Failed to save repository analysis''), state = alice_state,
       github_calls = 2, scanner_calls = 1, llm_calls = 1 \<rparr>"
  apply (simp add: analyzeRepository_def analyzeFresh_def Let_def env0_def alice_state_def
      cache_get_def select_repository_def single_def clone_gh_ok llm_down_analysis)
  apply (simp add: insert_repository_def newRepository_def alice_repo_def Let_def)
  done


lemma analyze_failure_state:
  assumes g: "cache_get (t_read env) (''repo:'' @ url) (cache st) = (cached, c1)"
      and f: "result (analyzeRepository env st u url) = Inl e"
  shows "state (analyzeRepository env st u url) = st\<lparr> cache := c1 \<rparr>"
proof -
  from analyze_cases [OF g, of u] f
  have fresh: "analyzeRepository env st u url = analyzeFresh env (st\<lparr> cache := c1 \<rparr>) u url"
    by auto
  from analyzeFresh_cases [of env "st\<lparr> cache := c1 \<rparr>" u url] f
  show ?thesis unfolding fresh by auto
qed

lemma analyze_keeps_inv:
  assumes inv: "repo_inv st"
  shows "repo_inv (state (analyzeRepository env st u url))"
proof (cases "result (analyzeRepository env st u url)")
  case (Inr r)
  then show ?thesis using analyze_result_persisted [OF inv] by simp
next
  case (Inl e)
  obtain cached c1 where g: "cache_get (t_read env) (''repo:'' @ url) (cache st) = (cached, c1)"
    by (cases "cache_get (t_read env) (''repo:'' @ url) (cache st)")
  have "repo_inv (st\<lparr> cache := c1 \<rparr>)" by (rule repo_inv_after_get [OF inv g])
  then show ?thesis unfolding analyze_failure_state [OF g Inl] .
qed

text \<open>
  The owner gate: whatever the cache and the store hold, a record that
  \<open>analyzeRepository\<close> returns belongs to the requesting user.
\<close>

lemma analysis_returns_own_record:
  assumes ok: "result (analyzeRepository env st u url) = Inr r"
  shows "r_user_id r = u"
proof -
  obtain cached c1 where g: "cache_get (t_read env) (''repo:'' @ url) (cache st) = (cached, c1)"
    by (cases "cache_get (t_read env) (''repo:'' @ url) (cache st)")
  from analyze_cases [OF g, of u]
  consider
    (hit) "cached = Some r" "r_user_id r = u"
  | (existing) "select_repository st u url = Some r"
  | (fresh) "analyzeRepository env st u url = analyzeFresh env (st\<lparr> cache := c1 \<rparr>) u url"
    using ok by auto
  then show ?thesis
  proof cases
    case hit
    then show ?thesis by simp
  next
    case existing
    then show ?thesis using select_repository_sound by blast
  next
    case fresh
    from analyzeFresh_cases [of env "st\<lparr> cache := c1 \<rparr>" u url] ok
    show ?thesis unfolding fresh by auto
  qed
qed

lemma analyze_keeps_rows:
  "set (repositories st) \<subseteq> set (repositories (state (analyzeRepository env st u url)))"
proof -
  obtain cached c1 where g: "cache_get (t_read env) (''repo:'' @ url) (cache st) = (cached, c1)"
    by (cases "cache_get (t_read env) (''repo:'' @ url) (cache st)")
  show ?thesis
    using analyze_cases [OF g, of u] analyzeFresh_cases [of env "st\<lparr> cache := c1 \<rparr>" u url]
    by auto
qed

lemma analyze_failure_changes_no_row:
  "isl (result (analyzeRepository env st u url)) \<Longrightarrow>
   repositories (state (analyzeRepository env st u url)) = repositories st"
proof -
  assume f: "isl (result (analyzeRepository env st u url))"
  obtain cached c1 where g: "cache_get (t_read env) (''repo:'' @ url) (cache st) = (cached, c1)"
    by (cases "cache_get (t_read env) (''repo:'' @ url) (cache st)")
  show ?thesis
    using f analyze_cases [OF g, of u] analyzeFresh_cases [of env "st\<lparr> cache := c1 \<rparr>" u url]
    by auto
qed

text \<open>
  In general: while another user's record of a URL is stored, every analysis of that
  URL by a different user fails and stores nothing.
\<close>

lemma other_users_url_is_refused:
  assumes inv: "repo_inv st"
      and other: "r' \<in> set (repositories st)" "github_url r' = url" "r_user_id r' \<noteq> u"
  shows "isl (result (analyzeRepository env st u url))
         \<and> repositories (state (analyzeRepository env st u url)) = repositories st"
proof -
  have "isl (result (analyzeRepository env st u url))"
  proof (rule ccontr)
    assume "\<not> isl (result (analyzeRepository env st u url))"
    then obtain r where ok: "result (analyzeRepository env st u url) = Inr r"
      by (cases "result (analyzeRepository env st u url)") auto
    from analyze_result_persisted [OF inv ok]
    have p: "repo_inv (state (analyzeRepository env st u url))"
      "r \<in> set (repositories (state (analyzeRepository env st u url)))"
      "r_user_id r = u" "github_url r = url" by simp_all
    have "r' \<in> set (repositories (state (analyzeRepository env st u url)))"
      using other(1) analyze_keeps_rows by blast
    then have "r' = r"
      using p other(2) by (meson distinct_map inj_onD repo_inv_def)
    then show False using p(3) other(3) by simp
  qed
  then show ?thesis using analyze_failure_changes_no_row by blast
qed

text \<open>
  C8. Analyzing the same (user, URL) a second time returns the record already persisted,
  without a call to the provider client, the scanner or the insight generator. The
  first analysis starts in a store whose URLs are distinct and whose cache entries are
  rows of the store (\<open>repo_inv\<close>) and returns \<open>r\<close>. The second one runs in any later
  state \<open>st\<close> with the same rows and such a cache, whatever the cache holds: warm, cold
  or expired. It returns \<open>r\<close>, makes no call and leaves the rows as they are; when the
  cache read misses (cold or expired), the record comes from the exact (user, URL)
  lookup in the store and the cache entry of the URL is set again, for 24 hours.
\<close>

theorem second_analysis_short_circuits:
  assumes "repo_inv st0"
      and "result (analyzeRepository env1 st0 u url) = Inr r"
      and "repositories st = repositories (state (analyzeRepository env1 st0 u url))"
      and "repo_inv st"
  shows "result (analyzeRepository env2 st u url) = Inr r
         \<and> github_calls (analyzeRepository env2 st u url) = 0
         \<and> scanner_calls (analyzeRepository env2 st u url) = 0
         \<and> llm_calls (analyzeRepository env2 st u url) = 0
         \<and> repositories (state (analyzeRepository env2 st u url)) = repositories st
         \<and> (fst (cache_get (t_read env2) (''repo:'' @ url) (cache st)) = None \<longrightarrow>
              cache (state (analyzeRepository env2 st u url)) (''repo:'' @ url)
                = Some \<lparr> c_value = r, expiresAt = t_write env2 + 86400 * 1000 \<rparr>)"
proof -
  have "r \<in> set (repositories st)" "r_user_id r = u" "github_url r = url"
    using analyze_result_persisted [OF assms(1,2)] assms(3) by simp_all
  then show ?thesis by (rule analyze_persisted_record [OF assms(4)])
qed

theorem second_analysis_short_circuits_witness:
  "repo_inv no_repositories
   \<and> result (analyzeRepository env0 no_repositories ''alice'' url0) = Inr alice_repo
   \<and> repo_inv (alice_state\<lparr> cache := Map.empty \<rparr>)
   \<and> result (analyzeRepository env0 (alice_state\<lparr> cache := Map.empty \<rparr>) ''alice'' url0) = Inr alice_repo
   \<and> github_calls (analyzeRepository env0 (alice_state\<lparr> cache := Map.empty \<rparr>) ''alice'' url0) = 0
   \<and> scanner_calls (analyzeRepository env0 (alice_state\<lparr> cache := Map.empty \<rparr>) ''alice'' url0) = 0
   \<and> llm_calls (analyzeRepository env0 (alice_state\<lparr> cache := Map.empty \<rparr>) ''alice'' url0) = 0
   \<and> cache (state (analyzeRepository env0 (alice_state\<lparr> cache := Map.empty \<rparr>) ''alice'' url0))
         (''repo:'' @ url0) = Some \<lparr> c_value = alice_repo, expiresAt = 86402000 \<rparr>"
proof -
  have a: "repo_inv no_repositories"
    by (simp add: repo_inv_def no_repositories_def)
  have b: "result (analyzeRepository env0 no_repositories ''alice'' url0) = Inr alice_repo"
    by (simp add: alice_analysis)
  have c: "repositories (alice_state\<lparr> cache := Map.empty \<rparr>)
             = repositories (state (analyzeRepository env0 no_repositories ''alice'' url0))"
    by (simp add: alice_analysis)
  have d: "repo_inv (alice_state\<lparr> cache := Map.empty \<rparr>)"
    by (simp add: repo_inv_def alice_state_def)
  have e: "fst (cache_get (t_read env0) (''repo:'' @ url0) (cache (alice_state\<lparr> cache := Map.empty \<rparr>))) = None"
    by (simp add: cache_get_def)
  have f: "t_write env0 + 86400 * 1000 = 86402000"
    by (simp add: env0_def)
  show ?thesis
    using a b d e f second_analysis_short_circuits [OF a b c d, of env0] by simp
qed

text \<open>
  C1. The claim: two users who analyze the same URL each end up with their own
  persisted record, and a cached record of another owner is never returned. The
  service does look the record up per user and does gate the cache by owner, but the
  table declares \<open>github_url\<close> unique on its own, so the second user's insert is refused
  and the analysis ends in a 500 after the whole pipeline has run. Here \<open>alice\<close>
  analyzes the URL in an empty store, then \<open>bob\<close> analyzes it: \<open>bob\<close> gets the error, no
  second row is stored, and the provider and the generator were called for nothing.
  The cached record of \<open>alice\<close> is not returned to \<open>bob\<close>.
\<close>

theorem second_user_is_refused:
  "result (analyzeRepository env0 no_repositories ''alice'' url0) = Inr alice_repo
   \<and> state (analyzeRepository env0 no_repositories ''alice'' url0) = alice_state
   \<and> r_user_id alice_repo = ''alice''
   \<and> result (analyzeRepository env0 alice_state ''bob'' url0)
       = Inl (AppError 500 ''Failed to save repository analysis'')
   \<and> repositories (state (analyzeRepository env0 alice_state ''bob'' url0)) = [alice_repo]
   \<and> github_calls (analyzeRepository env0 alice_state ''bob'' url0) = 2
   \<and> llm_calls (analyzeRepository env0 alice_state ''bob'' url0) = 1"
  by (simp add: alice_analysis bob_analysis) (simp add: alice_state_def alice_repo_def)

section \<open>Properties of the daily log manager\<close>

lemma fold_add_sum: "fold (\<lambda>l s. s + f l) xs (a::int) = a + sum_list (map f xs)"
  by (induction xs arbitrary: a) (simp_all add: ac_simps)

lemma recompute_fields:
  "a_user_id (recompute logs u d) = u"
  "activity_date (recompute logs u d) = d"
  "log_count (recompute logs u d) = length (logs_for logs u d)"
  "total_hours (recompute logs u d) = sum_list (map hours_worked (logs_for logs u d))"
  "is_active (recompute logs u d) = (0 < length (logs_for logs u d))"
  by (simp_all add: recompute_def Let_def fold_add_sum)

lemma recompute_cong:
  "logs_for logs' u d = logs_for logs u d \<Longrightarrow> recompute logs' u d = recompute logs u d"
  by (simp add: recompute_def)

lemma akey_recompute [simp]: "akey (recompute logs u d) = (u, d)"
  by (simp add: akey_def recompute_fields)

lemma find_upsert:
  "find_activity (upsert_activity row rows) u d =
     (if akey row = (u, d) then Some row else find_activity rows u d)"
  by (induction rows) (auto simp add: find_activity_def akey_def)

lemma upsert_keys:
  "set (map akey (upsert_activity row rows)) = insert (akey row) (set (map akey rows))"
  by (induction rows) (auto simp add: akey_def)

lemma upsert_Cons:
  "upsert_activity row (a # as) =
     (if akey a = akey row then row # as else a # upsert_activity row as)"
  by (simp add: akey_def)

lemma upsert_distinct:
  "distinct (map akey rows) \<Longrightarrow> distinct (map akey (upsert_activity row rows))"
proof (induction rows)
  case Nil
  then show ?case by simp
next
  case (Cons a rows)
  show ?case
  proof (cases "akey a = akey row")
    case True
    then show ?thesis using Cons.prems by (simp add: upsert_Cons del: upsert_activity.simps)
  next
    case False
    have "akey a \<notin> set (map akey (upsert_activity row rows))"
      using Cons.prems False unfolding upsert_keys by auto
    moreover have "distinct (map akey (upsert_activity row rows))"
      using Cons by simp
    ultimately show ?thesis
      using False by (simp add: upsert_Cons del: upsert_activity.simps)
  qed
qed

lemma upsert_member:
  "distinct (map akey rows) \<Longrightarrow> a \<in> set (upsert_activity row rows) \<Longrightarrow>
   a = row \<or> (a \<in> set rows \<and> akey a \<noteq> akey row)"
proof (induction rows)
  case Nil
  then show ?case by simp
next
  case (Cons b rows)
  show ?case
  proof (cases "akey b = akey row")
    case True
    then have "a = row \<or> a \<in> set rows"
      using Cons.prems(2) by (simp add: upsert_Cons del: upsert_activity.simps)
    moreover have "\<forall>x \<in> set rows. akey x \<noteq> akey b"
      using Cons.prems(1) by (metis distinct.simps(2) imageI list.simps(9) set_map)
    ultimately show ?thesis using True by auto
  next
    case False
    then have "a = b \<or> a \<in> set (upsert_activity row rows)"
      using Cons.prems(2) by (simp add: upsert_Cons del: upsert_activity.simps)
    then show ?thesis using Cons False by auto
  qed
qed

lemma upsert_keeps:
  "a \<in> set rows \<Longrightarrow> \<exists>b \<in> set (upsert_activity row rows). akey b = akey a"
proof -
  assume "a \<in> set rows"
  then have "akey a \<in> set (map akey (upsert_activity row rows))"
    unfolding upsert_keys by simp
  then show ?thesis by auto
qed

text \<open>
  One step: the logs change only on one day of one user, which is then recomputed and,
  if the row fits, upserted.
\<close>

lemma recompute_step:
  assumes inv: "distinct (map akey rows)"
      and exact: "\<forall>a \<in> set rows. fits_activity (recompute logs (a_user_id a) (activity_date a)) \<longrightarrow>
                    a = recompute logs (a_user_id a) (activity_date a)"
      and cover: "\<forall>l \<in> set logs. fits_activity (recompute logs (user_id l) (log_date l)) \<longrightarrow>
                    (\<exists>a \<in> set rows. a_user_id a = user_id l \<and> activity_date a = log_date l)"
      and same: "\<And>u' d'. (u', d') \<noteq> (u, d) \<Longrightarrow> logs_for logs' u' d' = logs_for logs u' d'"
      and rows': "rows' = (if fits_activity (recompute logs' u d)
                           then upsert_activity (recompute logs' u d) rows else rows)"
  shows "distinct (map akey rows')"
    and "\<forall>a \<in> set rows'. fits_activity (recompute logs' (a_user_id a) (activity_date a)) \<longrightarrow>
           a = recompute logs' (a_user_id a) (activity_date a)"
    and "\<forall>l \<in> set logs'. fits_activity (recompute logs' (user_id l) (log_date l)) \<longrightarrow>
           (\<exists>a \<in> set rows'. a_user_id a = user_id l \<and> activity_date a = log_date l)"
proof -
  have other: "\<And>u' d'. (u', d') \<noteq> (u, d) \<Longrightarrow> recompute logs' u' d' = recompute logs u' d'"
    using same by (rule recompute_cong)
  show "distinct (map akey rows')"
    unfolding rows' using inv by (simp add: upsert_distinct)
  show "\<forall>a \<in> set rows'. fits_activity (recompute logs' (a_user_id a) (activity_date a)) \<longrightarrow>
           a = recompute logs' (a_user_id a) (activity_date a)"
  proof (intro ballI impI)
    fix a
    assume a: "a \<in> set rows'"
       and f: "fits_activity (recompute logs' (a_user_id a) (activity_date a))"
    show "a = recompute logs' (a_user_id a) (activity_date a)"
    proof (cases "akey a = (u, d)")
      case True
      then have k: "a_user_id a = u" "activity_date a = d" by (simp_all add: akey_def)
      then have "fits_activity (recompute logs' u d)" using f by simp
      then have "a \<in> set (upsert_activity (recompute logs' u d) rows)"
        using a rows' by simp
      then have "a = recompute logs' u d"
        using upsert_member [OF inv] True by fastforce
      then show ?thesis using k by simp
    next
      case False
      then have ne: "(a_user_id a, activity_date a) \<noteq> (u, d)" by (simp add: akey_def)
      have "a \<in> set rows"
      proof (cases "fits_activity (recompute logs' u d)")
        case True
        then have "a \<in> set (upsert_activity (recompute logs' u d) rows)"
          using a rows' by simp
        then show ?thesis using upsert_member [OF inv] False by fastforce
      next
        case False
        then show ?thesis using a rows' by simp
      qed
      then show ?thesis using exact f other [OF ne] by simp
    qed
  qed
  show "\<forall>l \<in> set logs'. fits_activity (recompute logs' (user_id l) (log_date l)) \<longrightarrow>
           (\<exists>a \<in> set rows'. a_user_id a = user_id l \<and> activity_date a = log_date l)"
  proof (intro ballI impI)
    fix l
    assume l: "l \<in> set logs'"
       and f: "fits_activity (recompute logs' (user_id l) (log_date l))"
    show "\<exists>a \<in> set rows'. a_user_id a = user_id l \<and> activity_date a = log_date l"
    proof (cases "(user_id l, log_date l) = (u, d)")
      case True
      then have fit: "fits_activity (recompute logs' u d)" using f by simp
      have "akey (recompute logs' u d) \<in> set (map akey (upsert_activity (recompute logs' u d) rows))"
        unfolding upsert_keys by simp
      then obtain b where b: "b \<in> set (upsert_activity (recompute logs' u d) rows)"
          "akey b = akey (recompute logs' u d)"
        by auto
      then have "a_user_id b = u \<and> activity_date b = d"
        by (simp add: akey_def recompute_fields)
      moreover have "b \<in> set rows'" using b(1) fit rows' by simp
      ultimately show ?thesis using True by auto
    next
      case False
      have "l \<in> set (logs_for logs' (user_id l) (log_date l))"
        using l by (simp add: logs_for_def)
      then have "l \<in> set (logs_for logs (user_id l) (log_date l))"
        using same [OF False] by simp
      then have "l \<in> set logs" by (simp add: logs_for_def)
      moreover have "fits_activity (recompute logs (user_id l) (log_date l))"
        using f other [OF False] by simp
      ultimately obtain a where a: "a \<in> set rows" "a_user_id a = user_id l"
          "activity_date a = log_date l"
        using cover by blast
      show ?thesis
      proof (cases "fits_activity (recompute logs' u d)")
        case True
        from upsert_keeps [OF a(1), of "recompute logs' u d"]
        obtain b where "b \<in> set (upsert_activity (recompute logs' u d) rows)" "akey b = akey a"
          by blast
        then show ?thesis using a(2,3) True rows' by (auto simp add: akey_def)
      next
        case False
        then show ?thesis using a rows' by auto
      qed
    qed
  qed
qed

lemma updateActivityForDate_rows:
  "updateActivityForDate st u d =
     st\<lparr> activity_days :=
           (if fits_activity (recompute (daily_logs st) u d)
            then upsert_activity (recompute (daily_logs st) u d) (activity_days st)
            else activity_days st) \<rparr>"
  by (simp add: updateActivityForDate_def Let_def)

lemma log_inv_step:
  assumes inv: "log_inv st"
      and ids: "distinct (map l_id logs')" "\<forall>l \<in> set logs'. l_id l < n'"
      and same: "\<And>u' d'. (u', d') \<noteq> (u, d) \<Longrightarrow> logs_for logs' u' d' = logs_for (daily_logs st) u' d'"
  shows "log_inv (updateActivityForDate (st\<lparr> daily_logs := logs', next_log_id := n' \<rparr>) u d)"
proof -
  have a: "distinct (map akey (activity_days st))"
    and b: "\<forall>a \<in> set (activity_days st).
              fits_activity (recompute (daily_logs st) (a_user_id a) (activity_date a)) \<longrightarrow>
              a = recompute (daily_logs st) (a_user_id a) (activity_date a)"
    and c: "\<forall>l \<in> set (daily_logs st).
              fits_activity (recompute (daily_logs st) (user_id l) (log_date l)) \<longrightarrow>
              (\<exists>a \<in> set (activity_days st).
                 a_user_id a = user_id l \<and> activity_date a = log_date l)"
    using inv by (simp_all add: log_inv_def)
  note r = recompute_step [where u = u and d = d, OF a b c same refl]
  show ?thesis
  proof (cases "fits_activity (recompute logs' u d)")
    case True
    then show ?thesis
      unfolding log_inv_def updateActivityForDate_rows
      using ids r by simp
  next
    case False
    then show ?thesis
      unfolding log_inv_def updateActivityForDate_rows
      using ids r by simp
  qed
qed

lemma logs_for_filter_map:
  assumes "\<And>l. l \<in> set logs \<Longrightarrow> user_id (g l) = user_id l \<and> log_date (g l) = log_date l"
      and "\<And>l. l \<in> set logs \<Longrightarrow> g l \<noteq> l \<Longrightarrow> (user_id l, log_date l) = (u, d)"
      and "(u', d') \<noteq> (u, d)"
  shows "logs_for (map g logs) u' d' = logs_for logs u' d'"
  using assms(1,2)
proof (induction logs)
  case Nil
  then show ?case by (simp add: logs_for_def)
next
  case (Cons l logs)
  have ih: "logs_for (map g logs) u' d' = logs_for logs u' d'"
    using Cons by simp
  have k: "user_id (g l) = user_id l" "log_date (g l) = log_date l"
    using Cons.prems(1) [of l] by simp_all
  show ?case
  proof (cases "user_id l = u' \<and> log_date l = d'")
    case True
    then have "g l = l" using Cons.prems(2) [of l] assms(3) by auto
    then show ?thesis using ih by (simp add: logs_for_def)
  next
    case False
    then show ?thesis using ih k by (auto simp add: logs_for_def)
  qed
qed

lemma logs_for_filter_out:
  assumes "\<And>l. l \<in> set logs \<Longrightarrow> \<not> keep l \<Longrightarrow> (user_id l, log_date l) = (u, d)"
      and "(u', d') \<noteq> (u, d)"
  shows "logs_for (filter keep logs) u' d' = logs_for logs u' d'"
proof -
  have "filter (\<lambda>l. user_id l = u' \<and> log_date l = d') (filter keep logs)
        = filter (\<lambda>l. user_id l = u' \<and> log_date l = d') logs"
    unfolding filter_filter
    by (rule filter_cong) (use assms in auto)
  then show ?thesis by (simp add: logs_for_def)
qed

lemma filter_single_only:
  assumes "filter P xs = [x]" and "y \<in> set xs" and "P y"
  shows "y = x"
proof -
  have "y \<in> set (filter P xs)" using assms(2,3) by simp
  then show ?thesis unfolding assms(1) by simp
qed

lemma distinct_id_filter:
  "distinct (map l_id logs) \<Longrightarrow> length (filter (\<lambda>l. l_id l = i \<and> Q l) logs) \<le> 1"
proof (induction logs)
  case Nil
  then show ?case by simp
next
  case (Cons l logs)
  have d: "distinct (map l_id logs)" using Cons.prems by simp
  show ?case
  proof (cases "l_id l = i \<and> Q l")
    case True
    have "\<forall>x \<in> set logs. l_id x \<noteq> i"
      using Cons.prems True by (metis distinct.simps(2) imageI list.simps(9) set_map)
    then have "filter (\<lambda>l. l_id l = i \<and> Q l) logs = []"
      by (simp add: filter_empty_conv)
    then show ?thesis using True by simp
  next
    case False
    then have "filter (\<lambda>l. l_id l = i \<and> Q l) (l # logs) = filter (\<lambda>l. l_id l = i \<and> Q l) logs"
      by auto
    then show ?thesis using Cons.IH [OF d] by simp
  qed
qed

lemma single_None_short:
  "length xs \<le> 1 \<Longrightarrow> single xs = None \<Longrightarrow> xs = []"
  by (cases xs) (auto simp add: single_def split: list.splits)


lemma createLog_cases:
  "(\<exists>e. createLog st u data = (Inl e, st))
   \<or> (\<exists>l. l_id l = next_log_id st \<and> user_id l = u \<and> log_date l = logDate data
          \<and> repo_id l = repoId data
          \<and> createLog st u data =
               (Inr l, updateActivityForDate
                         (st\<lparr> daily_logs := daily_logs st @ [l], next_log_id := next_log_id st + 1 \<rparr>)
                         u (logDate data)))"
  by (auto simp add: createLog_def insert_daily_log_def Let_def split: db_error.splits)

lemma createLog_inv: "log_inv st \<Longrightarrow> log_inv (snd (createLog st u data))"
proof -
  assume inv: "log_inv st"
  from createLog_cases [of st u data]
  consider (fail) e where "createLog st u data = (Inl e, st)"
    | (ok) l where "l_id l = next_log_id st" "user_id l = u" "log_date l = logDate data"
        "createLog st u data =
               (Inr l, updateActivityForDate
                         (st\<lparr> daily_logs := daily_logs st @ [l], next_log_id := next_log_id st + 1 \<rparr>)
                         u (logDate data))"
    by blast
  then show ?thesis
  proof cases
    case fail
    then show ?thesis using inv by simp
  next
    case ok
    have ids: "distinct (map l_id (daily_logs st))" "\<forall>x \<in> set (daily_logs st). l_id x < next_log_id st"
      using inv by (simp_all add: log_inv_def)
    have "log_inv (updateActivityForDate
             (st\<lparr> daily_logs := daily_logs st @ [l], next_log_id := next_log_id st + 1 \<rparr>)
             u (logDate data))"
    proof (rule log_inv_step [OF inv])
      show "distinct (map l_id (daily_logs st @ [l]))"
        using ids ok(1) by auto
      show "\<forall>x \<in> set (daily_logs st @ [l]). l_id x < next_log_id st + 1"
        using ids ok(1) by auto
      show "\<And>u' d'. (u', d') \<noteq> (u, logDate data) \<Longrightarrow>
              logs_for (daily_logs st @ [l]) u' d' = logs_for (daily_logs st) u' d'"
        using ok(2,3) by (auto simp add: logs_for_def)
    qed
    then show ?thesis using ok(4) by simp
  qed
qed

lemma apply_updates_keeps:
  "l_id (apply_updates upd l) = l_id l" "user_id (apply_updates upd l) = user_id l"
  "log_date (apply_updates upd l) = log_date l" "repo_id (apply_updates upd l) = repo_id l"
  by (simp_all add: apply_updates_def)

lemma updateLog_inv: "log_inv st \<Longrightarrow> log_inv (snd (updateLog st i u upd))"
proof -
  assume inv: "log_inv st"
  define hit where "hit = (\<lambda>l::DailyLog. l_id l = i \<and> user_id l = u
                                 \<and> \<not> no_columns upd \<and> \<not> hours_overflow upd)"
  define logs' where "logs' = map (\<lambda>l. if hit l then apply_updates upd l else l) (daily_logs st)"
  have ids: "distinct (map l_id (daily_logs st))" "\<forall>x \<in> set (daily_logs st). l_id x < next_log_id st"
    using inv by (simp_all add: log_inv_def)
  have short: "length (filter hit (daily_logs st)) \<le> 1"
    unfolding hit_def by (rule distinct_id_filter [OF ids(1)])
  have unf: "updateLog st i u upd =
     (case single (map (apply_updates upd) (filter hit (daily_logs st))) of
        None \<Rightarrow> (Inl (AppError 404 ''Log entry not found or update failed''), st\<lparr> daily_logs := logs' \<rparr>)
      | Some data \<Rightarrow> (Inr data, updateActivityForDate (st\<lparr> daily_logs := logs' \<rparr>) u (log_date data)))"
    unfolding updateLog_def Let_def hit_def logs'_def by (rule refl)
  show ?thesis
  proof (cases "single (map (apply_updates upd) (filter hit (daily_logs st)))")
    case None
    have "length (map (apply_updates upd) (filter hit (daily_logs st))) \<le> 1"
      using short by simp
    then have "map (apply_updates upd) (filter hit (daily_logs st)) = []"
      using None by (rule single_None_short)
    then have "\<forall>l \<in> set (daily_logs st). \<not> hit l"
      by (simp add: filter_empty_conv)
    then have "logs' = daily_logs st"
      unfolding logs'_def by (simp add: map_idI)
    then show ?thesis using unf None inv by simp
  next
    case (Some data)
    then have "map (apply_updates upd) (filter hit (daily_logs st)) = [data]"
      by (simp add: single_Some)
    then obtain l0 where l0: "filter hit (daily_logs st) = [l0]" "data = apply_updates upd l0"
      by (cases "filter hit (daily_logs st)") auto
    have only: "\<And>l. l \<in> set (daily_logs st) \<Longrightarrow> hit l \<Longrightarrow> l = l0"
      by (rule filter_single_only [OF l0(1)])
    have "l0 \<in> set (filter hit (daily_logs st))" using l0(1) by simp
    then have h0: "l0 \<in> set (daily_logs st)" "hit l0" by simp_all
    have u0: "user_id l0 = u" using h0(2) by (simp add: hit_def)
    have d0: "log_date data = log_date l0" using l0(2) by (simp add: apply_updates_keeps)
    have "log_inv (updateActivityForDate
            (st\<lparr> daily_logs := logs', next_log_id := next_log_id st \<rparr>) u (log_date data))"
    proof (rule log_inv_step [OF inv])
      have "map l_id logs' = map l_id (daily_logs st)"
        unfolding logs'_def by (simp add: apply_updates_keeps)
      then show "distinct (map l_id logs')" using ids(1) by simp
      show "\<forall>x \<in> set logs'. l_id x < next_log_id st"
        unfolding logs'_def using ids(2) by (auto simp add: apply_updates_keeps)
      show "\<And>u' d'. (u', d') \<noteq> (u, log_date data) \<Longrightarrow>
              logs_for logs' u' d' = logs_for (daily_logs st) u' d'"
        unfolding logs'_def
      proof (rule logs_for_filter_map [where u = u and d = "log_date data"])
        fix l assume "l \<in> set (daily_logs st)"
        show "user_id (if hit l then apply_updates upd l else l) = user_id l
              \<and> log_date (if hit l then apply_updates upd l else l) = log_date l"
          by (simp add: apply_updates_keeps)
      next
        fix l assume l: "l \<in> set (daily_logs st)" "(if hit l then apply_updates upd l else l) \<noteq> l"
        then have "hit l" by (cases "hit l") simp_all
        then have "l = l0" using only l(1) by simp
        then show "(user_id l, log_date l) = (u, log_date data)"
          using u0 d0 by simp
      qed
    qed
    then show ?thesis using unf Some by simp
  qed
qed

lemma deleteLog_inv: "log_inv st \<Longrightarrow> log_inv (deleteLog st i u)"
proof -
  assume inv: "log_inv st"
  define gone where "gone = (\<lambda>l::DailyLog. l_id l = i \<and> user_id l = u)"
  define logs' where "logs' = filter (\<lambda>l. \<not> gone l) (daily_logs st)"
  have ids: "distinct (map l_id (daily_logs st))" "\<forall>x \<in> set (daily_logs st). l_id x < next_log_id st"
    using inv by (simp_all add: log_inv_def)
  have short: "length (filter gone (daily_logs st)) \<le> 1"
    unfolding gone_def by (rule distinct_id_filter [OF ids(1)])
  have unf: "deleteLog st i u =
     (case single (filter gone (daily_logs st)) of
        None \<Rightarrow> st\<lparr> daily_logs := logs' \<rparr>
      | Some l \<Rightarrow> updateActivityForDate (st\<lparr> daily_logs := logs' \<rparr>) u (log_date l))"
    unfolding deleteLog_def Let_def gone_def logs'_def by (rule refl)
  show ?thesis
  proof (cases "single (filter gone (daily_logs st))")
    case None
    then have "filter gone (daily_logs st) = []"
      using short by (simp add: single_None_short)
    then have "\<forall>l \<in> set (daily_logs st). \<not> gone l"
      by (simp add: filter_empty_conv)
    then have "logs' = daily_logs st"
      unfolding logs'_def by simp
    then show ?thesis using unf None inv by simp
  next
    case (Some l0)
    then have l0: "filter gone (daily_logs st) = [l0]"
      by (simp add: single_Some)
    have only: "\<And>l. l \<in> set (daily_logs st) \<Longrightarrow> gone l \<Longrightarrow> l = l0"
      by (rule filter_single_only [OF l0])
    have "l0 \<in> set (filter gone (daily_logs st))" using l0 by simp
    then have u0: "user_id l0 = u" by (simp add: gone_def)
    have "log_inv (updateActivityForDate
            (st\<lparr> daily_logs := logs', next_log_id := next_log_id st \<rparr>) u (log_date l0))"
    proof (rule log_inv_step [OF inv])
      show "distinct (map l_id logs')"
        unfolding logs'_def using ids(1) by (simp add: distinct_map_filter)
      show "\<forall>x \<in> set logs'. l_id x < next_log_id st"
        unfolding logs'_def using ids(2) by simp
      show "\<And>u' d'. (u', d') \<noteq> (u, log_date l0) \<Longrightarrow>
              logs_for logs' u' d' = logs_for (daily_logs st) u' d'"
        unfolding logs'_def
      proof (rule logs_for_filter_out [where u = u and d = "log_date l0"])
        fix l assume "l \<in> set (daily_logs st)" "\<not> \<not> gone l"
        then have "l = l0" using only by simp
        then show "(user_id l, log_date l) = (u, log_date l0)" using u0 by simp
      qed
    qed
    then show ?thesis using unf Some by simp
  qed
qed

lemma run_op_inv: "log_inv st \<Longrightarrow> log_inv (run_op st op)"
  by (cases op) (simp_all add: createLog_inv updateLog_inv deleteLog_inv)

lemma run_ops_inv: "log_inv st \<Longrightarrow> log_inv (run_ops st ops)"
  unfolding run_ops_def by (induction ops arbitrary: st) (simp_all add: run_op_inv)

lemma empty_logs_inv: "log_inv (empty_logs repos)"
  by (simp add: log_inv_def empty_logs_def)


lemma fits_recompute:
  "fits_activity (recompute logs u d) \<longleftrightarrow>
     length (logs_for logs u d) < 2147483648
     \<and> \<bar>sum_list (map hours_worked (logs_for logs u d))\<bar> < 1000000"
  by (simp add: fits_activity_def recompute_fields)

lemma updateActivityForDate_exact:
  "daily_logs (updateActivityForDate st u d) = daily_logs st
   \<and> (if fits_activity (recompute (daily_logs st) u d)
      then find_activity (activity_days (updateActivityForDate st u d)) u d
             = Some (recompute (daily_logs st) u d)
      else activity_days (updateActivityForDate st u d) = activity_days st)"
  by (simp add: updateActivityForDate_rows find_upsert)

lemma updateActivityForDate_exact_at:
  assumes "st' = updateActivityForDate st1 u d"
  shows "if fits_activity (recompute (daily_logs st') u d)
         then find_activity (activity_days st') u d = Some (recompute (daily_logs st') u d)
         else activity_days st' = activity_days st1"
  using updateActivityForDate_exact [of st1 u d] unfolding assms by presburger

lemma createLog_exact:
  assumes "fst (createLog st u data) = Inr l"
  shows "if fits_activity (recompute (daily_logs (snd (createLog st u data))) u (logDate data))
         then find_activity (activity_days (snd (createLog st u data))) u (logDate data)
                = Some (recompute (daily_logs (snd (createLog st u data))) u (logDate data))
         else activity_days (snd (createLog st u data)) = activity_days st"
proof -
  from createLog_cases [of st u data] assms
  obtain l' where "createLog st u data =
               (Inr l', updateActivityForDate
                         (st\<lparr> daily_logs := daily_logs st @ [l'], next_log_id := next_log_id st + 1 \<rparr>)
                         u (logDate data))"
    by auto
  then have "snd (createLog st u data) = updateActivityForDate
                         (st\<lparr> daily_logs := daily_logs st @ [l'], next_log_id := next_log_id st + 1 \<rparr>)
                         u (logDate data)"
    by simp
  from updateActivityForDate_exact_at [OF this] show ?thesis by simp
qed

lemma updateLog_exact:
  assumes "fst (updateLog st i u upd) = Inr l"
  shows "if fits_activity (recompute (daily_logs (snd (updateLog st i u upd))) u (log_date l))
         then find_activity (activity_days (snd (updateLog st i u upd))) u (log_date l)
                = Some (recompute (daily_logs (snd (updateLog st i u upd))) u (log_date l))
         else activity_days (snd (updateLog st i u upd)) = activity_days st"
proof -
  define hit where "hit = (\<lambda>l::DailyLog. l_id l = i \<and> user_id l = u
                                 \<and> \<not> no_columns upd \<and> \<not> hours_overflow upd)"
  define logs' where "logs' = map (\<lambda>l. if hit l then apply_updates upd l else l) (daily_logs st)"
  have unf: "updateLog st i u upd =
     (case single (map (apply_updates upd) (filter hit (daily_logs st))) of
        None \<Rightarrow> (Inl (AppError 404 ''Log entry not found or update failed''), st\<lparr> daily_logs := logs' \<rparr>)
      | Some data \<Rightarrow> (Inr data, updateActivityForDate (st\<lparr> daily_logs := logs' \<rparr>) u (log_date data)))"
    unfolding updateLog_def Let_def hit_def logs'_def by (rule refl)
  from assms unf have "snd (updateLog st i u upd)
      = updateActivityForDate (st\<lparr> daily_logs := logs' \<rparr>) u (log_date l)"
    by (cases "single (map (apply_updates upd) (filter hit (daily_logs st)))") auto
  from updateActivityForDate_exact_at [OF this] show ?thesis by simp
qed

lemma deleteLog_exact:
  assumes inv: "log_inv st" and l: "l \<in> set (daily_logs st)" "l_id l = i" "user_id l = u"
  shows "if fits_activity (recompute (daily_logs (deleteLog st i u)) u (log_date l))
         then find_activity (activity_days (deleteLog st i u)) u (log_date l)
                = Some (recompute (daily_logs (deleteLog st i u)) u (log_date l))
         else activity_days (deleteLog st i u) = activity_days st"
proof -
  have d: "distinct (map l_id (daily_logs st))" using inv by (simp add: log_inv_def)
  have short: "length (filter (\<lambda>l. l_id l = i \<and> user_id l = u) (daily_logs st)) \<le> 1"
    by (rule distinct_id_filter [OF d])
  have "l \<in> set (filter (\<lambda>l. l_id l = i \<and> user_id l = u) (daily_logs st))"
    using l by simp
  then have "filter (\<lambda>l. l_id l = i \<and> user_id l = u) (daily_logs st) = [l]"
    using short by (cases "filter (\<lambda>l. l_id l = i \<and> user_id l = u) (daily_logs st)") auto
  then have "single (filter (\<lambda>l. l_id l = i \<and> user_id l = u) (daily_logs st)) = Some l"
    by (simp add: single_Some)
  then have "deleteLog st i u = updateActivityForDate
      (st\<lparr> daily_logs := filter (\<lambda>l. \<not> (l_id l = i \<and> user_id l = u)) (daily_logs st) \<rparr>)
      u (log_date l)"
    by (simp add: deleteLog_def Let_def)
  from updateActivityForDate_exact_at [OF this] show ?thesis by simp
qed

text \<open>
  C6. The claim: after every create, update or delete the aggregate stored for the
  (user, date) equals the recomputation over the day's current rows, after any sequence
  of mutations. The aggregate is written with an upsert whose refusal is logged and
  nothing else, and \<open>activity_days\<close> refuses a row that does not fit its columns
  (\<open>total_hours\<close> is \<open>DECIMAL(6, 2)\<close>, \<open>log_count\<close> is \<open>INTEGER\<close>): the mutation of the
  log still succeeds and the aggregate stays as it was.

  As amended. After every create, update or delete of a log, if the recomputation over
  the day's current rows fits the aggregate's columns (fewer than \<open>2 ^ 31\<close> logs, less
  than 10000 hours in total), the aggregate stored for that (user, date) equals it:
  \<open>log_count\<close> is the number of the rows, \<open>total_hours\<close> the sum of their
  \<open>hours_worked\<close>, \<open>is_active\<close> says that there is one; if it does not fit, the table of
  aggregates is left as it was before the mutation. This holds after any sequence of
  mutations: from a store that satisfies \<open>log_inv\<close> (the empty store does), every
  sequence of operations leads to a store where no (user, date) has two aggregate rows
  and, for every day whose recomputation fits, the aggregate row is exact and is there
  if the day has a log. The three conjuncts on \<open>createLog\<close>, \<open>updateLog\<close> and
  \<open>deleteLog\<close> are the single steps.
\<close>

theorem aggregates_exact_while_they_fit:
  assumes "log_inv st"
  shows "log_inv (run_ops st ops)
     \<and> distinct (map akey (activity_days (run_ops st ops)))
     \<and> (\<forall>a \<in> set (activity_days (run_ops st ops)).
           fits_activity (recompute (daily_logs (run_ops st ops)) (a_user_id a) (activity_date a)) \<longrightarrow>
           log_count a = length (logs_for (daily_logs (run_ops st ops)) (a_user_id a) (activity_date a))
           \<and> total_hours a
               = sum_list (map hours_worked
                   (logs_for (daily_logs (run_ops st ops)) (a_user_id a) (activity_date a)))
           \<and> is_active a = (0 < log_count a))
     \<and> (\<forall>l \<in> set (daily_logs (run_ops st ops)).
           fits_activity (recompute (daily_logs (run_ops st ops)) (user_id l) (log_date l)) \<longrightarrow>
           (\<exists>a \<in> set (activity_days (run_ops st ops)).
              a_user_id a = user_id l \<and> activity_date a = log_date l))
     \<and> (\<forall>l. fst (createLog st u data) = Inr l \<longrightarrow>
           (if fits_activity (recompute (daily_logs (snd (createLog st u data))) u (logDate data))
            then find_activity (activity_days (snd (createLog st u data))) u (logDate data)
                   = Some (recompute (daily_logs (snd (createLog st u data))) u (logDate data))
            else activity_days (snd (createLog st u data)) = activity_days st))
     \<and> (\<forall>l. fst (updateLog st i u upd) = Inr l \<longrightarrow>
           (if fits_activity (recompute (daily_logs (snd (updateLog st i u upd))) u (log_date l))
            then find_activity (activity_days (snd (updateLog st i u upd))) u (log_date l)
                   = Some (recompute (daily_logs (snd (updateLog st i u upd))) u (log_date l))
            else activity_days (snd (updateLog st i u upd)) = activity_days st))
     \<and> (\<forall>l \<in> set (daily_logs st). l_id l = i \<and> user_id l = u \<longrightarrow>
           (if fits_activity (recompute (daily_logs (deleteLog st i u)) u (log_date l))
            then find_activity (activity_days (deleteLog st i u)) u (log_date l)
                   = Some (recompute (daily_logs (deleteLog st i u)) u (log_date l))
            else activity_days (deleteLog st i u) = activity_days st))
     \<and> (fits_activity (recompute logs u d) \<longleftrightarrow>
           length (logs_for logs u d) < 2147483648
           \<and> \<bar>sum_list (map hours_worked (logs_for logs u d))\<bar> < 1000000)"
proof -
  have inv': "log_inv (run_ops st ops)" by (rule run_ops_inv [OF assms])
  have exact: "\<forall>a \<in> set (activity_days (run_ops st ops)).
           fits_activity (recompute (daily_logs (run_ops st ops)) (a_user_id a) (activity_date a)) \<longrightarrow>
           log_count a = length (logs_for (daily_logs (run_ops st ops)) (a_user_id a) (activity_date a))
           \<and> total_hours a
               = sum_list (map hours_worked
                   (logs_for (daily_logs (run_ops st ops)) (a_user_id a) (activity_date a)))
           \<and> is_active a = (0 < log_count a)"
  proof (intro ballI impI)
    fix a
    assume "a \<in> set (activity_days (run_ops st ops))"
       and "fits_activity (recompute (daily_logs (run_ops st ops)) (a_user_id a) (activity_date a))"
    then have "a = recompute (daily_logs (run_ops st ops)) (a_user_id a) (activity_date a)"
      using inv' by (simp add: log_inv_def)
    then show "log_count a = length (logs_for (daily_logs (run_ops st ops)) (a_user_id a) (activity_date a))
           \<and> total_hours a
               = sum_list (map hours_worked
                   (logs_for (daily_logs (run_ops st ops)) (a_user_id a) (activity_date a)))
           \<and> is_active a = (0 < log_count a)"
      by (metis recompute_fields(3,4,5))
  qed
  have cover: "\<forall>l \<in> set (daily_logs (run_ops st ops)).
           fits_activity (recompute (daily_logs (run_ops st ops)) (user_id l) (log_date l)) \<longrightarrow>
           (\<exists>a \<in> set (activity_days (run_ops st ops)).
              a_user_id a = user_id l \<and> activity_date a = log_date l)"
    and dist: "distinct (map akey (activity_days (run_ops st ops)))"
    using inv' by (simp_all add: log_inv_def)
  have c: "\<forall>l. fst (createLog st u data) = Inr l \<longrightarrow>
           (if fits_activity (recompute (daily_logs (snd (createLog st u data))) u (logDate data))
            then find_activity (activity_days (snd (createLog st u data))) u (logDate data)
                   = Some (recompute (daily_logs (snd (createLog st u data))) u (logDate data))
            else activity_days (snd (createLog st u data)) = activity_days st)"
    using createLog_exact [of st u data] by blast
  have up: "\<forall>l. fst (updateLog st i u upd) = Inr l \<longrightarrow>
           (if fits_activity (recompute (daily_logs (snd (updateLog st i u upd))) u (log_date l))
            then find_activity (activity_days (snd (updateLog st i u upd))) u (log_date l)
                   = Some (recompute (daily_logs (snd (updateLog st i u upd))) u (log_date l))
            else activity_days (snd (updateLog st i u upd)) = activity_days st)"
    using updateLog_exact [of st i u upd] by blast
  have del: "\<forall>l \<in> set (daily_logs st). l_id l = i \<and> user_id l = u \<longrightarrow>
           (if fits_activity (recompute (daily_logs (deleteLog st i u)) u (log_date l))
            then find_activity (activity_days (deleteLog st i u)) u (log_date l)
                   = Some (recompute (daily_logs (deleteLog st i u)) u (log_date l))
            else activity_days (deleteLog st i u) = activity_days st)"
    using deleteLog_exact [OF assms, of _ i u] by blast
  show ?thesis
    using inv' dist exact cover c up del fits_recompute [of logs u d] by blast
qed

lemma ops0_run:
  "run_ops (empty_logs [7]) ops0 =
     \<lparr> daily_logs = [\<lparr> l_id = 0, user_id = ''u'', repo_id = None, log_date = 100, content = ''a'',
                       hours_worked = 325, mood = None \<rparr>],
       next_log_id = 2,
       activity_days = [\<lparr> a_user_id = ''u'', activity_date = 100, log_count = 1,
                          total_hours = 325, is_active = True \<rparr>],
       repository_ids = [7] \<rparr>"
  by (simp add: run_ops_def ops0_def data0_def empty_logs_def createLog_def insert_daily_log_def
      unique_conflict_def updateActivityForDate_def recompute_def logs_for_def updateLog_def
      deleteLog_def single_def apply_updates_def no_columns_def hours_overflow_def
      fits_hours_worked_def fits_activity_def truthy_string_def Let_def)

lemma day0_create:
  "createLog (empty_logs [7]) ''u'' data0 =
     (Inr \<lparr> l_id = 0, user_id = ''u'', repo_id = None, log_date = 100, content = ''a'',
            hours_worked = 150, mood = None \<rparr>,
      \<lparr> daily_logs = [\<lparr> l_id = 0, user_id = ''u'', repo_id = None, log_date = 100,
                        content = ''a'', hours_worked = 150, mood = None \<rparr>],
        next_log_id = 1,
        activity_days = [\<lparr> a_user_id = ''u'', activity_date = 100, log_count = 1,
                           total_hours = 150, is_active = True \<rparr>],
        repository_ids = [7] \<rparr>)"
  by (simp add: data0_def empty_logs_def createLog_def insert_daily_log_def
      unique_conflict_def updateActivityForDate_def recompute_def logs_for_def
      fits_hours_worked_def fits_activity_def truthy_string_def Let_def)

theorem aggregates_exact_while_they_fit_witness:
  "log_inv (empty_logs [7])
   \<and> log_inv (run_ops (empty_logs [7]) ops0)
   \<and> activity_days (run_ops (empty_logs [7]) ops0)
       = [\<lparr> a_user_id = ''u'', activity_date = 100, log_count = 1, total_hours = 325,
            is_active = True \<rparr>]
   \<and> map hours_worked (daily_logs (run_ops (empty_logs [7]) ops0)) = [325]
   \<and> fits_activity (recompute (daily_logs (run_ops (empty_logs [7]) ops0)) ''u'' 100)
   \<and> find_activity (activity_days (snd (createLog (empty_logs [7]) ''u'' data0))) ''u'' 100
       = Some (recompute (daily_logs (snd (createLog (empty_logs [7]) ''u'' data0))) ''u'' 100)"
proof -
  note t = aggregates_exact_while_they_fit
      [OF empty_logs_inv, where repos1 = "[7]" and ops = ops0 and u = "''u''" and data = data0
        and i = 0 and upd = "\<lparr> u_content = None, u_hoursWorked = None, u_mood = None \<rparr>"
        and logs = "daily_logs (run_ops (empty_logs [7]) ops0)" and d = 100]
  have inv: "log_inv (run_ops (empty_logs [7]) ops0)"
    using t by (rule conjunct1)
  have fits: "fits_activity (recompute (daily_logs (run_ops (empty_logs [7]) ops0)) ''u'' 100)"
    using t by (simp add: ops0_run logs_for_def)
  have "fits_activity (recompute (daily_logs (snd (createLog (empty_logs [7]) ''u'' data0))) ''u'' 100)"
    by (simp add: day0_create fits_recompute logs_for_def)
  moreover have "logDate data0 = 100" by (simp add: data0_def)
  moreover have "fst (createLog (empty_logs [7]) ''u'' data0)
      = Inr \<lparr> l_id = 0, user_id = ''u'', repo_id = None, log_date = 100, content = ''a'',
              hours_worked = 150, mood = None \<rparr>"
    by (simp add: day0_create)
  moreover note t [THEN conjunct2, THEN conjunct2, THEN conjunct2, THEN conjunct2,
      THEN conjunct1, rule_format]
  ultimately have created:
    "find_activity (activity_days (snd (createLog (empty_logs [7]) ''u'' data0))) ''u'' 100
       = Some (recompute (daily_logs (snd (createLog (empty_logs [7]) ''u'' data0))) ''u'' 100)"
    by simp
  show ?thesis
    using inv fits created empty_logs_inv [of "[7]"] by (simp add: ops0_run)
qed

lemma logs_for_day24: "logs_for (map log24 [0..<n]) ''u'' 100 = map log24 [0..<n]"
  by (simp add: logs_for_def log24_def)

lemma sum_day24: "sum_list (map (hours_worked \<circ> log24) [0..<n]) = 2400 * int n"
  by (induction n) (simp_all add: log24_def)

lemma recompute_day24:
  "0 < n \<Longrightarrow> recompute (map log24 [0..<n]) ''u'' 100 = row24 n"
  by (simp add: recompute_def Let_def logs_for_day24 fold_add_sum sum_day24 row24_def)

lemma fits_row24: "fits_activity (row24 n) \<longleftrightarrow> n \<le> 416"
  by (auto simp add: fits_activity_def row24_def)

lemma day24_create: "createLog (day24 n) ''u'' data24 = (Inr (log24 n), day24 (Suc n))"
proof -
  have ins: "insert_daily_log (day24 n)
          \<lparr> l_id = 0, user_id = ''u'', repo_id = None, log_date = 100, content = ''a'',
            hours_worked = 2400, mood = None \<rparr>
        = Inr (log24 n, (day24 n)\<lparr> daily_logs := map log24 [0..<Suc n], next_log_id := Suc n \<rparr>)"
    by (simp add: insert_daily_log_def fits_hours_worked_def unique_conflict_def list_ex_iff
        day24_def log24_def Let_def)
  have rows: "updateActivityForDate
          ((day24 n)\<lparr> daily_logs := map log24 [0..<Suc n], next_log_id := Suc n \<rparr>) ''u'' 100
        = day24 (Suc n)"
  proof (cases "Suc n \<le> 416")
    case True
    then have "min n 416 = n" "min (Suc n) 416 = Suc n" by simp_all
    then show ?thesis
      using True recompute_day24 [of "Suc n"] fits_row24 [of "Suc n"]
      by (simp add: updateActivityForDate_rows day24_def row24_def)
  next
    case False
    then have "min n 416 = 416" "min (Suc n) 416 = 416" "n \<noteq> 0" by simp_all
    then show ?thesis
      using False recompute_day24 [of "Suc n"] fits_row24 [of "Suc n"]
      by (simp add: updateActivityForDate_rows day24_def)
  qed
  show ?thesis
    using ins rows
    by (simp add: createLog_def data24_def truthy_string_def)
qed

lemma day24_run: "run_ops (empty_logs []) (replicate n (Create ''u'' data24)) = day24 n"
proof (induction n)
  case 0
  show ?case by (simp add: run_ops_def empty_logs_def day24_def)
next
  case (Suc n)
  have "replicate (Suc n) (Create ''u'' data24) = replicate n (Create ''u'' data24) @ [Create ''u'' data24]"
    by (simp add: replicate_append_same)
  then have "run_ops (empty_logs []) (replicate (Suc n) (Create ''u'' data24))
      = run_op (run_ops (empty_logs []) (replicate n (Create ''u'' data24))) (Create ''u'' data24)"
    by (simp add: run_ops_def)
  then show ?case using Suc by (simp add: day24_create)
qed

text \<open>
  The claim fails on one user who logs 24 hours 417 times on one date, each time without
  a repository (nothing refuses such a log, see C3). The first 416 creates keep the
  aggregate exact, at 9984 hours. The 417th create succeeds and stores its log, but the
  recomputed total, 10008 hours, does not fit \<open>DECIMAL(6, 2)\<close>: the upsert is refused and
  the aggregate stays at 416 logs and 9984 hours, while the day has 417 logs.
\<close>

theorem aggregate_stops_at_10000_hours:
  "fst (createLog (run_ops (empty_logs []) (replicate 416 (Create ''u'' data24))) ''u'' data24)
     = Inr (log24 416)
   \<and> snd (createLog (run_ops (empty_logs []) (replicate 416 (Create ''u'' data24))) ''u'' data24)
     = run_ops (empty_logs []) (replicate 417 (Create ''u'' data24))
   \<and> length (logs_for (daily_logs (run_ops (empty_logs []) (replicate 417 (Create ''u'' data24))))
               ''u'' 100) = 417
   \<and> activity_days (run_ops (empty_logs []) (replicate 417 (Create ''u'' data24)))
     = [\<lparr> a_user_id = ''u'', activity_date = 100, log_count = 416, total_hours = 998400,
          is_active = True \<rparr>]
   \<and> find_activity (activity_days (run_ops (empty_logs []) (replicate 417 (Create ''u'' data24))))
        ''u'' 100
     \<noteq> Some (recompute (daily_logs (run_ops (empty_logs []) (replicate 417 (Create ''u'' data24))))
               ''u'' 100)"
proof -
  have s: "Suc 416 = 417" by simp
  have c: "createLog (day24 416) ''u'' data24 = (Inr (log24 416), day24 417)"
    using day24_create [of 416] unfolding s .
  have r: "recompute (map log24 [0..<417]) ''u'' 100 = row24 417"
    by (rule recompute_day24) simp
  have rows: "activity_days (day24 417) = [row24 416]"
    by (simp add: day24_def)
  have ne: "row24 416 \<noteq> row24 417"
    by (simp add: row24_def)
  have logs: "daily_logs (day24 417) = map log24 [0..<417]"
    by (simp add: day24_def)
  have "find_activity [row24 416] ''u'' 100 = Some (row24 416)"
    by (simp add: find_activity_def row24_def)
  then have f: "find_activity (activity_days (day24 417)) ''u'' 100
                  \<noteq> Some (recompute (daily_logs (day24 417)) ''u'' 100)"
    unfolding rows logs r using ne by simp
  have l: "length (logs_for (daily_logs (day24 417)) ''u'' 100) = 417"
    unfolding logs logs_for_day24 by simp
  have v: "activity_days (day24 417)
     = [\<lparr> a_user_id = ''u'', activity_date = 100, log_count = 416, total_hours = 998400,
          is_active = True \<rparr>]"
    unfolding rows by (simp add: row24_def)
  show ?thesis
    unfolding day24_run using c f l v by simp
qed

lemma create_without_repository_never_conflicts:
  "repoId data = None \<Longrightarrow>
   fits_hours_worked (case hoursWorked data of None \<Rightarrow> 0 | Some h \<Rightarrow> h) \<Longrightarrow>
   \<exists>l. fst (createLog st u data) = Inr l"
  by (simp add: createLog_def insert_daily_log_def unique_conflict_def Let_def list_ex_iff)

lemma duplicate_with_repository_conflicts:
  assumes "l \<in> set (daily_logs st)" "user_id l = u" "log_date l = logDate data"
      and "repo_id l = Some r" "repoId data = Some r" "r \<in> set (repository_ids st)"
      and "fits_hours_worked (case hoursWorked data of None \<Rightarrow> 0 | Some h \<Rightarrow> h)"
  shows "createLog st u data =
           (Inl (AppError 409 ''Log entry already exists for this date and repository''), st)"
proof -
  have "list_ex (unique_conflict \<lparr> l_id = 0, user_id = u, repo_id = repoId data,
            log_date = logDate data, content = d_content data,
            hours_worked = (case hoursWorked data of None \<Rightarrow> 0 | Some h \<Rightarrow> h),
            mood = truthy_string (d_mood data) \<rparr>) (daily_logs st)"
    unfolding list_ex_iff using assms by (auto simp add: unique_conflict_def)
  then show ?thesis
    using assms(5,6,7) by (simp add: createLog_def insert_daily_log_def)
qed

lemma other_repository_is_accepted:
  assumes "repoId data = Some r" "r \<in> set (repository_ids st)"
      and "\<forall>l \<in> set (daily_logs st). user_id l = u \<and> log_date l = logDate data \<longrightarrow> repo_id l \<noteq> Some r"
      and "fits_hours_worked (case hoursWorked data of None \<Rightarrow> 0 | Some h \<Rightarrow> h)"
  shows "\<exists>l. fst (createLog st u data) = Inr l \<and> repo_id l = Some r"
proof -
  have "\<not> list_ex (unique_conflict \<lparr> l_id = 0, user_id = u, repo_id = repoId data,
            log_date = logDate data, content = d_content data,
            hours_worked = (case hoursWorked data of None \<Rightarrow> 0 | Some h \<Rightarrow> h),
            mood = truthy_string (d_mood data) \<rparr>) (daily_logs st)"
    unfolding list_ex_iff using assms by (auto simp add: unique_conflict_def)
  then show ?thesis
    using assms(1,2,4) by (simp add: createLog_def insert_daily_log_def Let_def)
qed

text \<open>
  C3. The claim: a second log for the same (user, no repository, date) fails with a
  conflict (409) and leaves the store unchanged, while a log for another repository on
  that date succeeds. \<open>createLog\<close> leaves the duplicate check to the unique constraint
  on \<open>(user_id, repo_id, log_date)\<close>, which never fires on a null \<open>repo_id\<close>: the second
  log without a repository is stored beside the first, and the day's aggregate counts
  two logs. With a repository the duplicate is refused with 409 and a log for another
  repository is accepted, as the three lemmas above show.
\<close>

theorem second_log_without_repository_is_accepted:
  "fst (createLog (empty_logs [7]) ''u'' data0)
     = Inr \<lparr> l_id = 0, user_id = ''u'', repo_id = None, log_date = 100, content = ''a'',
             hours_worked = 150, mood = None \<rparr>
   \<and> fst (createLog (snd (createLog (empty_logs [7]) ''u'' data0)) ''u'' data0)
     = Inr \<lparr> l_id = 1, user_id = ''u'', repo_id = None, log_date = 100, content = ''a'',
             hours_worked = 150, mood = None \<rparr>
   \<and> fst (createLog (snd (createLog (empty_logs [7]) ''u'' data0)) ''u'' data0)
     \<noteq> Inl (AppError 409 ''Log entry already exists for this date and repository'')
   \<and> map repo_id (daily_logs (snd (createLog (snd (createLog (empty_logs [7]) ''u'' data0)) ''u'' data0)))
     = [None, None]
   \<and> activity_days (snd (createLog (snd (createLog (empty_logs [7]) ''u'' data0)) ''u'' data0))
     = [\<lparr> a_user_id = ''u'', activity_date = 100, log_count = 2, total_hours = 300,
          is_active = True \<rparr>]"
  by (simp add: data0_def empty_logs_def createLog_def insert_daily_log_def
      unique_conflict_def updateActivityForDate_def recompute_def logs_for_def
      fits_hours_worked_def fits_activity_def truthy_string_def Let_def)

section \<open>Properties of the activity aggregator\<close>

lemma getDateRange_week: "getDateRange tz now Week = (localDay tz now - 7, localDay tz now)"
  by (simp add: getDateRange_def setDate_def Let_def)

lemma fold_plus_sum:
  "fold (\<lambda>x s. s + f x) xs (a::'a::comm_monoid_add) = a + sum_list (map f xs)"
  by (induction xs arbitrary: a) (simp_all add: ac_simps)

text \<open>
  C4. The claim: metrics for the period \<open>week\<close> sum the aggregates of the trailing 7
  calendar days, today included: the dates from today - 6 to today. \<open>getDateRange\<close>
  takes the local date of seven days ago as the start (\<open>setDate(getDate() - 7)\<close>) and
  both ends of the range are inclusive (\<open>gte\<close>, \<open>lte\<close>), as for every other period.

  As amended: metrics for the period \<open>week\<close> sum the aggregates of the user whose date
  lies between today - 7 and today, both included: 8 distinct dates, from the same
  weekday of last week to today, today being the server's local date.
\<close>

theorem week_metrics_cover_eight_days:
  "getDateRange tz now Week = (localDay tz now - 7, localDay tz now)
   \<and> startDate (getProductivityMetrics pf tz now st u Week) = localDay tz now - 7
   \<and> endDate (getProductivityMetrics pf tz now st u Week) = localDay tz now
   \<and> card {localDay tz now - 7 .. localDay tz now} = 8
   \<and> totalLogs (getProductivityMetrics pf tz now st u Week)
       = sum_list (map log_count
           (filter (\<lambda>a. a_user_id a = u \<and> localDay tz now - 7 \<le> activity_date a
                         \<and> activity_date a \<le> localDay tz now)
              (activity_days st)))
   \<and> totalHours (getProductivityMetrics pf tz now st u Week)
       = sum_list (map total_hours
           (filter (\<lambda>a. a_user_id a = u \<and> localDay tz now - 7 \<le> activity_date a
                         \<and> activity_date a \<le> localDay tz now)
              (activity_days st)))
   \<and> activeDays (getProductivityMetrics pf tz now st u Week)
       = length (filter is_active
           (filter (\<lambda>a. a_user_id a = u \<and> localDay tz now - 7 \<le> activity_date a
                         \<and> activity_date a \<le> localDay tz now)
              (activity_days st)))"
  by (simp add: getProductivityMetrics_def getDateRange_week activities_between_def
      fold_plus_sum Let_def)

text \<open>
  The claim fails on day 100 (UTC): the range is 93 to 100, and an aggregate dated
  day 93, seven days back, is counted.
\<close>

theorem week_range_starts_seven_days_back:
  "getDateRange 0 (100 * msPerDay) Week = (93, 100)
   \<and> localDay 0 (100 * msPerDay) = 100
   \<and> fst (getDateRange 0 (100 * msPerDay) Week) \<noteq> localDay 0 (100 * msPerDay) - 6
   \<and> card {fst (getDateRange 0 (100 * msPerDay) Week) .. snd (getDateRange 0 (100 * msPerDay) Week)} \<noteq> 7
   \<and> totalLogs (getProductivityMetrics pf0 0 (100 * msPerDay) (days_state [93]) ''u'' Week) = 1"
  by (simp add: getProductivityMetrics_def getDateRange_week activities_between_def
      logs_between_def localDay_def msPerDay_def days_state_def day_row_def Let_def)


lemma active_days_of_rows:
  "active_days_desc (activity_days (days_state ds)) ''u'' = rev (sort ds)"
proof -
  have "filter (\<lambda>a. a_user_id a = ''u'' \<and> is_active a) (map day_row ds) = map day_row ds"
    by (induction ds) (simp_all add: day_row_def)
  moreover have "map activity_date (map day_row ds) = ds"
    by (induction ds) (simp_all add: day_row_def)
  ultimately show ?thesis
    by (simp add: active_days_desc_def days_state_def)
qed

lemma streak_without_active_days:
  "active_days_desc (activity_days st) u = [] \<Longrightarrow>
   calculateStreak tz now st u = \<lparr> currentStreak = 0, longestStreak = 0, lastActiveDate = None \<rparr>"
  by (simp add: calculateStreak_def)

lemma setHours0_newDate:
  "0 \<le> tz \<Longrightarrow> tz < msPerDay \<Longrightarrow> setHours0 tz (newDate d) = d * msPerDay - tz"
proof -
  assume "0 \<le> tz" "tz < msPerDay"
  then have "(d * msPerDay + tz) div msPerDay = d"
    by (simp add: msPerDay_def)
  then show ?thesis by (simp add: setHours0_def newDate_def localDay_def)
qed

lemma setHours0_newDate_west:
  "- msPerDay \<le> tz \<Longrightarrow> tz < 0 \<Longrightarrow> setHours0 tz (newDate d) = (d - 1) * msPerDay - tz"
proof -
  assume "- msPerDay \<le> tz" "tz < 0"
  then have "0 \<le> tz + msPerDay" "tz + msPerDay < msPerDay" by simp_all
  then have "((d - 1) * msPerDay + (tz + msPerDay)) div msPerDay = d - 1"
    by (simp add: msPerDay_def)
  moreover have "(d - 1) * msPerDay + (tz + msPerDay) = d * msPerDay + tz"
    by (simp add: algebra_simps)
  ultimately show ?thesis by (simp add: setHours0_def newDate_def localDay_def)
qed

lemma current_streak_three_days_east_of_utc:
  assumes tz: "0 \<le> tz" "tz < msPerDay"
      and days: "active_days_desc (activity_days st) u
                   = localDay tz now # (localDay tz now - 1) # (localDay tz now - 2) # older"
      and gap: "older = [] \<or> hd older \<noteq> localDay tz now - 3"
  shows "currentStreak (calculateStreak tz now st u) = 3"
proof -
  have m: "msPerDay \<noteq> 0" by (simp add: msPerDay_def)
  have eq: "(a * msPerDay - tz = localDay tz now * msPerDay - tz - int i * msPerDay)
            = (a = localDay tz now - int i)" for a i
  proof -
    have "(a * msPerDay - tz = localDay tz now * msPerDay - tz - int i * msPerDay)
          = (a * msPerDay = (localDay tz now - int i) * msPerDay)"
      by (simp add: algebra_simps)
    then show ?thesis using m by simp
  qed
  have older: "currentStreak_loop tz (localDay tz now * msPerDay - tz) 3 3 older = 3"
  proof (cases older)
    case Nil
    then show ?thesis by simp
  next
    case (Cons a rest)
    then have "a \<noteq> localDay tz now - 3" using gap by simp
    then show ?thesis
      using Cons eq [of a 3] by (simp add: setHours0_newDate [OF tz] Let_def)
  qed
  have three: "currentStreak_loop tz (localDay tz now * msPerDay - tz) 0 0
           (localDay tz now # (localDay tz now - 1) # (localDay tz now - 2) # older) = 3"
    using older eq [of "localDay tz now" 0] eq [of "localDay tz now - 1" 1]
       eq [of "localDay tz now - 2" 2]
    by (simp add: setHours0_newDate [OF tz] Let_def numeral_3_eq_3 numeral_2_eq_2)
  have t0: "setHours0 tz now = localDay tz now * msPerDay - tz"
    by (simp add: setHours0_def)
  show ?thesis
    unfolding calculateStreak_def Let_def days list.case t0 three by simp
qed

lemma current_streak_zero_without_today:
  assumes tz: "0 \<le> tz" "tz < msPerDay"
      and days: "active_days_desc (activity_days st) u = d # older" "d \<noteq> localDay tz now"
  shows "currentStreak (calculateStreak tz now st u) = 0"
proof -
  have t0: "setHours0 tz now = localDay tz now * msPerDay - tz"
    by (simp add: setHours0_def)
  have "d * msPerDay \<noteq> localDay tz now * msPerDay"
    using days(2) by (simp add: msPerDay_def)
  then have "currentStreak_loop tz (localDay tz now * msPerDay - tz) 0 0 (d # older) = 0"
    by (simp add: setHours0_newDate [OF tz] Let_def)
  then show ?thesis
    unfolding calculateStreak_def Let_def days(1) list.case t0 by simp
qed

lemma longest_streak_two_runs:
  assumes "active_days_desc (activity_days st) u = [a, a - 1, a - 2, b, b - 1, b - 2]"
      and "a - 2 - b \<noteq> 1"
  shows "longestStreak (calculateStreak tz now st u) = 3"
proof -
  have d: "(newDate x - newDate y) div msPerDay = x - y" for x y
  proof -
    have "newDate x - newDate y = (x - y) * msPerDay"
      by (simp add: newDate_def algebra_simps)
    then show ?thesis by (simp add: msPerDay_def)
  qed
  have "longestStreak_loop 0 1 [a, a - 1, a - 2, b, b - 1, b - 2] = 3"
    using assms(2) by (simp add: d Let_def)
  then show ?thesis
    unfolding calculateStreak_def Let_def assms(1) list.case by simp
qed

text \<open>
  C7. The claim: no active day gives streaks of 0 and no last active date; active days
  today, yesterday and the day before, with a gap on the fourth day back, give a
  current streak of 3 (and no activity today gives 0); two separate runs of 3
  consecutive days give a longest streak of 3. The lemmas above prove all of it for a
  server whose local time is UTC or east of it, and the parts on no active day and on
  the longest streak for every time zone. West of UTC the current streak is wrong:
  \<open>new Date('YYYY-MM-DD')\<close> is midnight UTC, which is the evening before in local time,
  so \<open>setHours(0, 0, 0, 0)\<close> moves every activity date one day back and today's
  activity never equals the expected date. Here the server is at UTC-5, it is 15:00 on
  day 100, and days 100, 99, 98 and 96 are active: the current streak is 0, not 3. The
  same store read at UTC gives 3.
\<close>

theorem streak_is_zero_west_of_utc:
  "localDay (- 18000000) (100 * msPerDay + 72000000) = 100
   \<and> active_days_desc (activity_days (days_state [100, 98, 99, 96])) ''u'' = [100, 99, 98, 96]
   \<and> calculateStreak (- 18000000) (100 * msPerDay + 72000000) (days_state [100, 98, 99, 96]) ''u''
       = \<lparr> currentStreak = 0, longestStreak = 3, lastActiveDate = Some 100 \<rparr>
   \<and> currentStreak (calculateStreak (- 18000000) (100 * msPerDay + 72000000)
        (days_state [100, 98, 99, 96]) ''u'') \<noteq> 3
   \<and> calculateStreak 0 (100 * msPerDay + 72000000) (days_state [100, 98, 99, 96]) ''u''
       = \<lparr> currentStreak = 3, longestStreak = 3, lastActiveDate = Some 100 \<rparr>"
  by (simp add: calculateStreak_def active_days_of_rows setHours0_def newDate_def localDay_def
      msPerDay_def Let_def)

end
